theory Spec2Isabelle
  imports Main "HOL-Library.Word"
begin

section \<open>JavaScript values held by spreadsheet cells\<close>

text \<open>
  A cell of the value grid returned by \<open>getValues()\<close> is a string, a number, a boolean or
  a Date object; reading a row past its last index gives \<open>undefined\<close>. A string is its
  sequence of UTF-16 code units, a number is the bit pattern of its IEEE 754 double (so
  that fractions, both zeros, the infinities and NaN are values), a Date is its time value
  in milliseconds (a cell holds no invalid Date).
\<close>

type_synonym unit16 = "16 word"

type_synonym jsstring = "unit16 list"

text \<open>The code units of a literal written in ASCII.\<close>

definition ascii :: "string \<Rightarrow> jsstring" where
  "ascii s = map (\<lambda>c. of_nat (of_char c)) s"

datatype jsval =
    JSUndefined
  | JSNull
  | JSBoolean bool
  | JSNumber "64 word"
  | JSString jsstring
  | JSDate int

type_synonym byte = "8 word"

text \<open>
  The library functions of the Apps Script runtime that the code calls on dates and on
  bytes are parameters of the model: \<open>Utilities.formatDate(date, timeZone, format)\<close>,
  \<open>Date.prototype.toString\<close> (used by \<open>String(date)\<close>) and
  \<open>Utilities.base64Encode(bytes)\<close>. So is the Unicode case mapping that
  \<open>toLowerCase\<close> applies to a string with a code unit outside ASCII. Text that is never
  a cell value (time zone and format names, script properties, request parameters, error
  messages, Drive identifiers and MIME types) is kept as \<open>string\<close>.
\<close>

record platform =
  Utilities_formatDate :: "int \<Rightarrow> string \<Rightarrow> string \<Rightarrow> jsstring"
  Date_toString :: "int \<Rightarrow> jsstring"
  Utilities_base64Encode :: "byte list \<Rightarrow> string"
  Unicode_toLowerCase :: "jsstring \<Rightarrow> jsstring"

subsection \<open>Numbers\<close>

text \<open>The three fields of a double: sign bit, biased exponent and fraction.\<close>

definition double_sign :: "64 word \<Rightarrow> bool" where
  "double_sign b = bit b 63"

definition double_exponent :: "64 word \<Rightarrow> int" where
  "double_exponent b = uint (take_bit 11 (drop_bit 52 b))"

definition double_fraction :: "64 word \<Rightarrow> int" where
  "double_fraction b = uint (take_bit 52 b)"

definition double_isNaN :: "64 word \<Rightarrow> bool" where
  "double_isNaN b = (double_exponent b = 2047 \<and> double_fraction b \<noteq> 0)"

definition double_isZero :: "64 word \<Rightarrow> bool" where
  "double_isZero b = (double_exponent b = 0 \<and> double_fraction b = 0)"

text \<open>The decimal digits of a natural number, most significant first.\<close>

definition digit_char :: "int \<Rightarrow> unit16" where
  "digit_char d = of_int (48 + d)"

function int_digits :: "int \<Rightarrow> jsstring" where
  "int_digits i =
     (if i < 10 then [digit_char i] else int_digits (i div 10) @ [digit_char (i mod 10)])"
  by pat_completeness auto
termination
  by (relation "measure nat") auto

text \<open>
  \<open>Number::toString\<close> prints the shortest decimal \<open>s * 10 ^ t\<close> that reads back as the
  same double, the one closest to the double if there are several. The double is
  \<open>X * 2 ^ q\<close> and the decimals that read back as it lie between \<open>L * 2 ^ q\<close> and
  \<open>H * 2 ^ q\<close>, the bounds included when the significand is even. For an exponent
  \<open>t\<close>, \<open>decimal_candidate\<close> gives the integer \<open>s\<close> within these bounds that is
  closest to the double, if there is one.
\<close>

definition decimal_candidate ::
    "int \<Rightarrow> int \<Rightarrow> int \<Rightarrow> int \<Rightarrow> bool \<Rightarrow> int \<Rightarrow> (int \<times> int) option" where
  "decimal_candidate L X H q inclusive t =
     (let A = 10 ^ nat (max t 0) * 2 ^ nat (max (- q) 0);
          B = 10 ^ nat (max (- t) 0) * 2 ^ nat (max q 0);
          lo = - ((- (L * B)) div A) + (if \<not> inclusive \<and> (L * B) mod A = 0 then 1 else 0);
          hi = (H * B) div A - (if \<not> inclusive \<and> (H * B) mod A = 0 then 1 else 0);
          fl = (X * B) div A;
          r2 = 2 * (X * B - fl * A);
          c = (if r2 < A then fl else if A < r2 then fl + 1 else if even fl then fl else fl + 1)
      in if lo \<le> hi \<and> 1 \<le> hi then Some (max lo (min hi c), t) else None)"

fun first_candidate :: "(int \<Rightarrow> (int \<times> int) option) \<Rightarrow> int list \<Rightarrow> (int \<times> int) option" where
  "first_candidate g [] = None"
| "first_candidate g (t # ts) =
     (case g t of Some st \<Rightarrow> Some st | None \<Rightarrow> first_candidate g ts)"

text \<open>
  The shortest decimal of the positive finite double with exponent field \<open>e\<close> and
  fraction \<open>f\<close>: the candidate of the largest exponent \<open>t\<close> that has one. The search
  starts above the decimal exponent of the double and ends below that of its seventeenth
  digit.
\<close>

definition shortest_decimal :: "int \<Rightarrow> int \<Rightarrow> int \<times> int" where
  "shortest_decimal e f =
     (let m = (if e = 0 then f else 2 ^ 52 + f);
          q = (if e = 0 then - 1074 else e - 1075);
          delta = (if f = 0 \<and> 1 < e then 1 else 2);
          t0 = (q * 3) div 10 + 20
      in case first_candidate
                (decimal_candidate (4 * m - delta) (4 * m) (4 * m + 2) (q - 2) (even m))
                (rev [t0 - 45 .. t0]) of
           Some st \<Rightarrow> st
         | None \<Rightarrow> (m, 0))"

text \<open>
  The notation of \<open>Number::toString\<close> for the decimal \<open>s * 10 ^ t\<close> with \<open>k\<close> digits
  and \<open>n = t + k\<close>: an integer up to 21 digits, a decimal fraction, a fraction below one
  with at most five leading zeros, or the exponent notation.
\<close>

definition format_decimal :: "int \<Rightarrow> int \<Rightarrow> jsstring" where
  "format_decimal s t =
     (let ds = int_digits s;
          k = int (length ds);
          n = t + k
      in if k \<le> n \<and> n \<le> 21 then ds @ replicate (nat (n - k)) (digit_char 0)
         else if 0 < n \<and> n \<le> 21 then take (nat n) ds @ ascii ''.'' @ drop (nat n) ds
         else if - 6 < n \<and> n \<le> 0 then ascii ''0.'' @ replicate (nat (- n)) (digit_char 0) @ ds
         else (if k = 1 then ds else take 1 ds @ ascii ''.'' @ drop 1 ds)
              @ ascii ''e'' @ (if 1 \<le> n then ascii ''+'' else ascii ''-'')
              @ int_digits \<bar>n - 1\<bar>)"

definition Number_toString :: "64 word \<Rightarrow> jsstring" where
  "Number_toString b =
     (if double_isNaN b then ascii ''NaN''
      else if double_exponent b = 2047 then
        (if double_sign b then ascii ''-Infinity'' else ascii ''Infinity'')
      else if double_isZero b then ascii ''0''
      else (if double_sign b then ascii ''-'' else [])
           @ (case shortest_decimal (double_exponent b) (double_fraction b) of
                (s, t) \<Rightarrow> format_decimal s t))"

subsection \<open>Truthiness, \<open>||\<close> and \<open>String(...)\<close>\<close>

fun falsy :: "jsval \<Rightarrow> bool" where
  "falsy JSUndefined = True"
| "falsy JSNull = True"
| "falsy (JSBoolean b) = (\<not> b)"
| "falsy (JSNumber n) = (double_isZero n \<or> double_isNaN n)"
| "falsy (JSString s) = (s = [])"
| "falsy (JSDate d) = False"

text \<open>\<open>a || b\<close>: the left operand when it is truthy, the right one otherwise.\<close>

definition js_or :: "jsval \<Rightarrow> jsval \<Rightarrow> jsval" where
  "js_or a b = (if falsy a then b else a)"

fun String_of :: "platform \<Rightarrow> jsval \<Rightarrow> jsstring" where
  "String_of P JSUndefined = ascii ''undefined''"
| "String_of P JSNull = ascii ''null''"
| "String_of P (JSBoolean b) = (if b then ascii ''true'' else ascii ''false'')"
| "String_of P (JSNumber n) = Number_toString n"
| "String_of P (JSString s) = s"
| "String_of P (JSDate d) = Date_toString P d"

subsection \<open>\<open>String.prototype\<close> methods used by the helpers\<close>

text \<open>
  \<open>trim\<close> removes white space and line terminators from both ends: TAB, LF, VT, FF, CR,
  SPACE, NBSP, the other space separators of Unicode, the line and paragraph separators
  and the byte order mark.
\<close>

definition isWhiteSpace :: "unit16 \<Rightarrow> bool" where
  "isWhiteSpace u =
     (u \<in> set [0x9, 0xA, 0xB, 0xC, 0xD, 0x20, 0xA0, 0x1680,
                0x2000, 0x2001, 0x2002, 0x2003, 0x2004, 0x2005, 0x2006, 0x2007, 0x2008,
                0x2009, 0x200A, 0x2028, 0x2029, 0x202F, 0x205F, 0x3000, 0xFEFF])"

definition trim :: "jsstring \<Rightarrow> jsstring" where
  "trim s = rev (dropWhile isWhiteSpace (rev (dropWhile isWhiteSpace s)))"

text \<open>
  \<open>toLowerCase\<close> on a string of ASCII code units maps A-Z to a-z; on any other string
  it is the case mapping of the runtime's Unicode tables.
\<close>

definition lower_char :: "unit16 \<Rightarrow> unit16" where
  "lower_char u = (if 0x41 \<le> u \<and> u \<le> 0x5A then u + 0x20 else u)"

definition toLowerCase :: "platform \<Rightarrow> jsstring \<Rightarrow> jsstring" where
  "toLowerCase P s =
     (if list_all (\<lambda>u. u < 0x80) s then map lower_char s else Unicode_toLowerCase P s)"

text \<open>\<open>s.split(',')\<close>: the pieces between commas; never an empty list.\<close>

definition comma :: unit16 where
  "comma = 0x2C"

fun split_comma :: "jsstring \<Rightarrow> jsstring list" where
  "split_comma [] = [[]]"
| "split_comma (c # cs) =
     (if c = comma then [] # split_comma cs
      else (case split_comma cs of
              [] \<Rightarrow> [[c]]
            | p # ps \<Rightarrow> (c # p) # ps))"

section \<open>Parsing helpers\<close>

text \<open>
  \<open>formatDate(dateValue)\<close>: empty string for a falsy value, the \<open>yyyy-MM-dd\<close>
  rendering in Asia/Tokyo for a Date, the stringification otherwise.
\<close>

definition formatDate :: "platform \<Rightarrow> jsval \<Rightarrow> jsstring" where
  "formatDate P dateValue =
     (if falsy dateValue then []
      else (case dateValue of
              JSDate d \<Rightarrow> Utilities_formatDate P d ''Asia/Tokyo'' ''yyyy-MM-dd''
            | _ \<Rightarrow> String_of P dateValue))"

definition parseTags :: "platform \<Rightarrow> jsval \<Rightarrow> jsstring list" where
  "parseTags P tagsString =
     (if falsy tagsString then []
      else filter (\<lambda>tag. length tag > 0) (map (\<lambda>tag. trim tag) (split_comma (String_of P tagsString))))"

definition parseBoolean :: "platform \<Rightarrow> jsval \<Rightarrow> bool" where
  "parseBoolean P v =
     (case v of
        JSBoolean b \<Rightarrow> b
      | _ \<Rightarrow>
        if falsy v then False
        else (let strValue = trim (toLowerCase P (String_of P v))
              in strValue = ascii ''true'' \<or> strValue = ascii ''1'' \<or> strValue = ascii ''yes''))"

section \<open>Data model\<close>

text \<open>
  The keys of \<open>LINK_KEYS\<close>, in source order: Amazon, DLsite, the official site
  (koushiki saito), Youtube, Niconico, Melonbooks and the generic link (rinku). A link's
  label is its key.
\<close>

datatype link_key = Amazon | DLsite | Official_site | Youtube | Niconico | Melonbooks | Link

datatype col_key =
    K_date | K_title | K_description | K_imageUrl | K_tags | K_isCommision
  | K_link link_key

record link =
  label :: link_key
  url :: jsstring

record ApiResponseItem =
  item_id :: nat
  date :: jsstring
  title :: jsstring
  description :: jsstring
  imageUrl :: jsstring
  tags :: "jsstring list"
  links :: "link list"
  isCommision :: bool

record ImageData =
  name :: string
  mimeType :: string
  data :: string

text \<open>A thrown JavaScript error object, with its \<open>name\<close> and \<open>message\<close>.\<close>

datatype jserror = JSError (err_name: string) (err_message: string)

definition new_Error :: "string \<Rightarrow> jserror" where
  "new_Error m = JSError ''Error'' m"

definition Error_toString :: "jserror \<Rightarrow> string" where
  "Error_toString e =
     (if err_name e = [] then err_message e
      else if err_message e = [] then err_name e
      else err_name e @ '': '' @ err_message e)"

section \<open>External services\<close>

text \<open>
  A sheet is its last populated row and its cells, addressed by 1-based row and column as
  \<open>getRange\<close> does. \<open>getRange(row, column, numRows, numColumns).getValues()\<close> is the
  grid of these cells, each row a 0-based array of \<open>numColumns\<close> values.
\<close>

record sheet =
  getLastRow :: nat
  cell :: "nat \<Rightarrow> nat \<Rightarrow> jsval"

definition getRange_getValues :: "sheet \<Rightarrow> nat \<Rightarrow> nat \<Rightarrow> nat \<Rightarrow> nat \<Rightarrow> jsval list list" where
  "getRange_getValues sh row column numRows numColumns =
     map (\<lambda>i. map (\<lambda>j. cell sh (row + i) (column + j)) [0..<numColumns]) [0..<numRows]"

record spreadsheet =
  getSheetByName :: "string option \<Rightarrow> sheet option"

record drive_file =
  getId :: string
  getMimeType :: string
  getBlob_getBytes :: "jserror + byte list"

record folder =
  getFiles :: "drive_file list"

text \<open>
  The script properties (\<open>None\<close> is the \<open>null\<close> of an unset property) and the two
  services; a service call either throws or returns its object.
\<close>

record env =
  SPREADSHEET_ID :: "string option"
  SHEET_NAME :: "string option"
  DRIVE_FOLDER_ID :: "string option"
  SpreadsheetApp_openById :: "string option \<Rightarrow> jserror + spreadsheet"
  DriveApp_getFolderById :: "string \<Rightarrow> jserror + folder"

section \<open>getPortfolioItems\<close>

definition COLUMN_COUNT :: nat where
  "COLUMN_COUNT = 13"

fun COL :: "col_key \<Rightarrow> nat" where
  "COL K_date = 1"
| "COL K_title = 2"
| "COL K_description = 3"
| "COL K_imageUrl = 4"
| "COL K_tags = 5"
| "COL K_isCommision = 6"
| "COL (K_link Amazon) = 7"
| "COL (K_link DLsite) = 8"
| "COL (K_link Official_site) = 9"
| "COL (K_link Youtube) = 10"
| "COL (K_link Niconico) = 11"
| "COL (K_link Melonbooks) = 12"
| "COL (K_link Link) = 13"

definition LINK_KEYS :: "link_key list" where
  "LINK_KEYS = [Amazon, DLsite, Official_site, Youtube, Niconico, Melonbooks, Link]"

text \<open>\<open>row[i]\<close> on a JavaScript array: \<open>undefined\<close> past the end.\<close>

definition js_index :: "jsval list \<Rightarrow> nat \<Rightarrow> jsval" where
  "js_index row i = (if i < length row then row ! i else JSUndefined)"

text \<open>The filter callback: \<open>row[COL.title] !== undefined && row[COL.title] !== ''\<close>.\<close>

definition title_present :: "jsval list \<Rightarrow> bool" where
  "title_present row =
     (js_index row (COL K_title) \<noteq> JSUndefined \<and> js_index row (COL K_title) \<noteq> JSString [])"

text \<open>\<open>String(value || '')\<close>, the coercion of the string fields.\<close>

definition String_or_empty :: "platform \<Rightarrow> jsval \<Rightarrow> jsstring" where
  "String_or_empty P v = String_of P (js_or v (JSString []))"

text \<open>The map callback \<open>(row, index) => ({...})\<close>.\<close>

definition make_item :: "platform \<Rightarrow> jsval list \<Rightarrow> nat \<Rightarrow> ApiResponseItem" where
  "make_item P row index =
     \<lparr> item_id = index,
       date = formatDate P (js_index row (COL K_date)),
       title = String_or_empty P (js_index row (COL K_title)),
       description = String_or_empty P (js_index row (COL K_description)),
       imageUrl = String_or_empty P (js_index row (COL K_imageUrl)),
       tags = parseTags P (js_index row (COL K_tags)),
       links = filter (\<lambda>link. url link \<noteq> [])
                 (map (\<lambda>key. \<lparr> label = key,
                                 url = String_or_empty P (js_index row (COL (K_link key))) \<rparr>)
                      LINK_KEYS),
       isCommision = parseBoolean P (js_index row (COL K_isCommision)) \<rparr>"

text \<open>\<open>values.filter(...).map((row, index) => ...)\<close>.\<close>

definition portfolio_items :: "platform \<Rightarrow> jsval list list \<Rightarrow> ApiResponseItem list" where
  "portfolio_items P values =
     map (\<lambda>(index, row). make_item P row index) (enumerate 0 (filter title_present values))"

text \<open>The grid \<open>values\<close> that \<open>getPortfolioItems\<close> reads from a sheet.\<close>

abbreviation data_values :: "sheet \<Rightarrow> jsval list list" where
  "data_values sh \<equiv> getRange_getValues sh 2 1 (getLastRow sh - 1) COLUMN_COUNT"

definition getPortfolioItems :: "platform \<Rightarrow> env \<Rightarrow> jserror + ApiResponseItem list" where
  "getPortfolioItems P E =
     (case SpreadsheetApp_openById E (SPREADSHEET_ID E) of
        Inl err \<Rightarrow> Inl err
      | Inr spreadsheet \<Rightarrow>
        (case getSheetByName spreadsheet (SHEET_NAME E) of
           None \<Rightarrow>
             Inl (new_Error (''Sheet \"'' @ (case SHEET_NAME E of None \<Rightarrow> ''null'' | Some n \<Rightarrow> n)
                              @ ''\" not found''))
         | Some sh \<Rightarrow>
             (let lastRow = getLastRow sh
              in if lastRow \<le> 1 then Inr []
                 else Inr (portfolio_items P
                             (getRange_getValues sh 2 1 (lastRow - 1) COLUMN_COUNT)))))"

section \<open>getDriveImages\<close>

definition imageMimeTypes :: "string list" where
  "imageMimeTypes = [''image/png'', ''image/jpeg'', ''image/gif'', ''image/webp'', ''image/svg+xml'']"

text \<open>
  The \<open>while (files.hasNext())\<close> loop over the folder's file iterator, with the array
  \<open>images\<close> it pushes to. Reading a file's bytes may throw, which ends the loop.
\<close>

fun images_loop :: "platform \<Rightarrow> drive_file list \<Rightarrow> ImageData list \<Rightarrow> jserror + ImageData list" where
  "images_loop P [] images = Inr images"
| "images_loop P (f # files) images =
     (if getMimeType f \<in> set imageMimeTypes
      then (case getBlob_getBytes f of
              Inl err \<Rightarrow> Inl err
            | Inr bytes \<Rightarrow>
                images_loop P files
                  (images @ [\<lparr> name = getId f, mimeType = getMimeType f,
                               data = Utilities_base64Encode P bytes \<rparr>]))
      else images_loop P files images)"

definition getDriveImages :: "platform \<Rightarrow> env \<Rightarrow> jserror + ImageData list" where
  "getDriveImages P E =
     (case DRIVE_FOLDER_ID E of
        None \<Rightarrow> Inl (new_Error ''DRIVE_FOLDER_ID is not set in script properties'')
      | Some fid \<Rightarrow>
          if fid = [] then Inl (new_Error ''DRIVE_FOLDER_ID is not set in script properties'')
          else (case DriveApp_getFolderById E fid of
                  Inl err \<Rightarrow> Inl err
                | Inr fld \<Rightarrow> images_loop P (getFiles fld) []))"

section \<open>doGet\<close>

text \<open>
  The request event \<open>e\<close> may be undefined, as may its \<open>parameter\<close> object; a query
  parameter that is absent reads as undefined.
\<close>

record event =
  parameter :: "(string \<Rightarrow> string option) option"

datatype MimeType = JSON

text \<open>The value handed to \<open>JSON.stringify\<close> for the response body.\<close>

datatype body =
    ItemsBody "ApiResponseItem list"
  | ImagesBody "ImageData list"
  | ErrorBody (error: bool) (message: string) (statusCode: int)

record TextOutput =
  mime :: MimeType
  content :: body

text \<open>\<open>e && e.parameter && e.parameter.action\<close>: the action parameter, if the request has one.\<close>

definition action_param :: "event option \<Rightarrow> string option" where
  "action_param e =
     (case e of
        None \<Rightarrow> None
      | Some ev \<Rightarrow>
          (case parameter ev of
             None \<Rightarrow> None
           | Some params \<Rightarrow> params ''action''))"

text \<open>\<open>(e && e.parameter && e.parameter.action) || 'items'\<close>.\<close>

definition request_action :: "event option \<Rightarrow> string" where
  "request_action e =
     (case action_param e of
        None \<Rightarrow> ''items''
      | Some a \<Rightarrow> if a = [] then ''items'' else a)"

definition createErrorResponse :: "string \<Rightarrow> int \<Rightarrow> TextOutput" where
  "createErrorResponse msg code =
     \<lparr> mime = JSON,
       content = ErrorBody True msg (if code = 0 then 500 else code) \<rparr>"

text \<open>
  \<open>doGet\<close> returns the text output together with the lines written by \<open>Logger.log\<close>.
  The \<open>try\<close> block is the \<open>switch\<close> on the action; its \<open>catch\<close> is the \<open>Inl\<close> branch.
\<close>

definition doGet :: "platform \<Rightarrow> env \<Rightarrow> event option \<Rightarrow> TextOutput \<times> string list" where
  "doGet P E e =
     (let action = request_action e;
          result = (if action = ''images''
                    then map_sum id ImagesBody (getDriveImages P E)
                    else map_sum id ItemsBody (getPortfolioItems P E))
      in case result of
           Inr r \<Rightarrow> (\<lparr> mime = JSON, content = r \<rparr>, [])
         | Inl err \<Rightarrow>
             (createErrorResponse (''Internal server error: '' @ Error_toString err) 500,
              [''Error in doGet: '' @ Error_toString err]))"

section \<open>The helpers with the exceptions of the runtime\<close>

text \<open>
  The functions above compute the values of the helpers. In JavaScript a method call
  raises a TypeError when its receiver has no such method, reading a property of
  \<open>undefined\<close> or \<open>null\<close> raises, and a library call raises when its arguments do not
  fit. Here the helpers and \<open>getPortfolioItems\<close> are translated once more, every such
  call giving either the error it raises or its value, and an error ending the evaluation
  where it is raised.
\<close>

definition TypeError :: "string \<Rightarrow> jserror" where
  "TypeError m = JSError ''TypeError'' m"

text \<open>Sequencing: an error of the first computation is the error of the whole.\<close>

definition and_then :: "jserror + 'a \<Rightarrow> ('a \<Rightarrow> jserror + 'b) \<Rightarrow> jserror + 'b" where
  "and_then r k = (case r of Inl err \<Rightarrow> Inl err | Inr x \<Rightarrow> k x)"

text \<open>
  \<open>xs.map(f)\<close> and \<open>xs.filter(f)\<close> with a callback that may raise: the first error
  ends the loop.
\<close>

fun map_raising :: "('a \<Rightarrow> jserror + 'b) \<Rightarrow> 'a list \<Rightarrow> jserror + 'b list" where
  "map_raising g [] = Inr []"
| "map_raising g (x # xs) =
     and_then (g x) (\<lambda>y. and_then (map_raising g xs) (\<lambda>ys. Inr (y # ys)))"

fun filter_raising :: "('a \<Rightarrow> jserror + bool) \<Rightarrow> 'a list \<Rightarrow> jserror + 'a list" where
  "filter_raising g [] = Inr []"
| "filter_raising g (x # xs) =
     and_then (g x) (\<lambda>keep. and_then (filter_raising g xs)
       (\<lambda>ys. Inr (if keep then x # ys else ys)))"

text \<open>
  \<open>String(v)\<close> of a cell value is a string value; it does not raise on undefined, null, a
  boolean, a number, a string or a Date.
\<close>

definition String_call :: "platform \<Rightarrow> jsval \<Rightarrow> jsval" where
  "String_call P v = JSString (String_of P v)"

text \<open>
  The method calls \<open>recv.split(',')\<close>, \<open>recv.trim()\<close> and \<open>recv.toLowerCase()\<close>:
  only a string has these methods.
\<close>

definition call_split_comma :: "jsval \<Rightarrow> jserror + jsstring list" where
  "call_split_comma recv =
     (case recv of
        JSString s \<Rightarrow> Inr (split_comma s)
      | JSUndefined \<Rightarrow> Inl (TypeError ''Cannot read properties of undefined'')
      | JSNull \<Rightarrow> Inl (TypeError ''Cannot read properties of null'')
      | _ \<Rightarrow> Inl (TypeError ''split is not a function''))"

definition call_trim :: "jsval \<Rightarrow> jserror + jsstring" where
  "call_trim recv =
     (case recv of
        JSString s \<Rightarrow> Inr (trim s)
      | JSUndefined \<Rightarrow> Inl (TypeError ''Cannot read properties of undefined'')
      | JSNull \<Rightarrow> Inl (TypeError ''Cannot read properties of null'')
      | _ \<Rightarrow> Inl (TypeError ''trim is not a function''))"

definition call_toLowerCase :: "platform \<Rightarrow> jsval \<Rightarrow> jserror + jsstring" where
  "call_toLowerCase P recv =
     (case recv of
        JSString s \<Rightarrow> Inr (toLowerCase P s)
      | JSUndefined \<Rightarrow> Inl (TypeError ''Cannot read properties of undefined'')
      | JSNull \<Rightarrow> Inl (TypeError ''Cannot read properties of null'')
      | _ \<Rightarrow> Inl (TypeError ''toLowerCase is not a function''))"

text \<open>
  \<open>recv.length > 0\<close>: the length of a string; reading the property raises on undefined
  and null, and gives undefined, which is not above 0, on the other values.
\<close>

definition length_positive :: "jsval \<Rightarrow> jserror + bool" where
  "length_positive recv =
     (case recv of
        JSString s \<Rightarrow> Inr (length s > 0)
      | JSUndefined \<Rightarrow> Inl (TypeError ''Cannot read properties of undefined'')
      | JSNull \<Rightarrow> Inl (TypeError ''Cannot read properties of null'')
      | _ \<Rightarrow> Inr False)"

text \<open>
  The runtime's \<open>Utilities.formatDate\<close>, as the code calls it, is the parameter \<open>U\<close>:
  from the argument, the time zone and the format to an error or a string.
\<close>

definition formatDate_raw ::
    "(jsval \<Rightarrow> string \<Rightarrow> string \<Rightarrow> jserror + jsstring) \<Rightarrow> platform \<Rightarrow> jsval \<Rightarrow> jserror + jsstring" where
  "formatDate_raw U P dateValue =
     (if falsy dateValue then Inr []
      else (case dateValue of
              JSDate d \<Rightarrow> U dateValue ''Asia/Tokyo'' ''yyyy-MM-dd''
            | _ \<Rightarrow> Inr (String_of P dateValue)))"

definition parseTags_raw :: "platform \<Rightarrow> jsval \<Rightarrow> jserror + jsstring list" where
  "parseTags_raw P tagsString =
     (if falsy tagsString then Inr []
      else and_then (call_split_comma (String_call P tagsString))
             (\<lambda>pieces. and_then (map_raising (\<lambda>tag. call_trim (JSString tag)) pieces)
               (\<lambda>trimmed. filter_raising (\<lambda>tag. length_positive (JSString tag)) trimmed)))"

definition parseBoolean_raw :: "platform \<Rightarrow> jsval \<Rightarrow> jserror + bool" where
  "parseBoolean_raw P v =
     (case v of
        JSBoolean b \<Rightarrow> Inr b
      | _ \<Rightarrow>
        if falsy v then Inr False
        else and_then (call_toLowerCase P (String_call P v))
               (\<lambda>lowered. and_then (call_trim (JSString lowered))
                 (\<lambda>strValue. Inr (strValue = ascii ''true'' \<or> strValue = ascii ''1''
                                     \<or> strValue = ascii ''yes''))))"

definition String_or_empty_raw :: "platform \<Rightarrow> jsval \<Rightarrow> jserror + jsstring" where
  "String_or_empty_raw P v = Inr (String_of P (js_or v (JSString [])))"

text \<open>
  The map callback: the fields of the object literal are evaluated in their order, and
  the first error is the error of the callback.
\<close>

definition make_item_raw ::
    "(jsval \<Rightarrow> string \<Rightarrow> string \<Rightarrow> jserror + jsstring) \<Rightarrow> platform \<Rightarrow> jsval list \<Rightarrow> nat
     \<Rightarrow> jserror + ApiResponseItem" where
  "make_item_raw U P row index =
     and_then (formatDate_raw U P (js_index row (COL K_date))) (\<lambda>d.
     and_then (String_or_empty_raw P (js_index row (COL K_title))) (\<lambda>t.
     and_then (String_or_empty_raw P (js_index row (COL K_description))) (\<lambda>ds.
     and_then (String_or_empty_raw P (js_index row (COL K_imageUrl))) (\<lambda>im.
     and_then (parseTags_raw P (js_index row (COL K_tags))) (\<lambda>tg.
     and_then (map_raising
                 (\<lambda>key. and_then (String_or_empty_raw P (js_index row (COL (K_link key))))
                          (\<lambda>u. Inr \<lparr> label = key, url = u \<rparr>))
                 LINK_KEYS) (\<lambda>ls.
     and_then (parseBoolean_raw P (js_index row (COL K_isCommision))) (\<lambda>ic.
       Inr \<lparr> item_id = index, date = d, title = t, description = ds, imageUrl = im,
             tags = tg, links = filter (\<lambda>link. url link \<noteq> []) ls, isCommision = ic \<rparr>)))))))"

definition portfolio_items_raw ::
    "(jsval \<Rightarrow> string \<Rightarrow> string \<Rightarrow> jserror + jsstring) \<Rightarrow> platform \<Rightarrow> jsval list list
     \<Rightarrow> jserror + ApiResponseItem list" where
  "portfolio_items_raw U P values =
     map_raising (\<lambda>(index, row). make_item_raw U P row index)
       (enumerate 0 (filter title_present values))"

definition getPortfolioItems_raw ::
    "(jsval \<Rightarrow> string \<Rightarrow> string \<Rightarrow> jserror + jsstring) \<Rightarrow> platform \<Rightarrow> env
     \<Rightarrow> jserror + ApiResponseItem list" where
  "getPortfolioItems_raw U P E =
     (case SpreadsheetApp_openById E (SPREADSHEET_ID E) of
        Inl err \<Rightarrow> Inl err
      | Inr spreadsheet \<Rightarrow>
        (case getSheetByName spreadsheet (SHEET_NAME E) of
           None \<Rightarrow>
             Inl (new_Error (''Sheet \"'' @ (case SHEET_NAME E of None \<Rightarrow> ''null'' | Some n \<Rightarrow> n)
                              @ ''\" not found''))
         | Some sh \<Rightarrow>
             (let lastRow = getLastRow sh
              in if lastRow \<le> 1 then Inr []
                 else portfolio_items_raw U P
                        (getRange_getValues sh 2 1 (lastRow - 1) COLUMN_COUNT))))"

text \<open>\<open>doGet\<close> with this \<open>getPortfolioItems\<close>.\<close>

definition doGet_raw ::
    "(jsval \<Rightarrow> string \<Rightarrow> string \<Rightarrow> jserror + jsstring) \<Rightarrow> platform \<Rightarrow> env \<Rightarrow> event option
     \<Rightarrow> TextOutput \<times> string list" where
  "doGet_raw U P E e =
     (let action = request_action e;
          result = (if action = ''images''
                    then map_sum id ImagesBody (getDriveImages P E)
                    else map_sum id ItemsBody (getPortfolioItems_raw U P E))
      in case result of
           Inr r \<Rightarrow> (\<lparr> mime = JSON, content = r \<rparr>, [])
         | Inl err \<Rightarrow>
             (createErrorResponse (''Internal server error: '' @ Error_toString err) 500,
              [''Error in doGet: '' @ Error_toString err]))"

section \<open>Concrete inputs\<close>

text \<open>A platform, three sheets and a folder on which the functions are run below.\<close>

definition example_platform :: platform where
  "example_platform =
     \<lparr> Utilities_formatDate = (\<lambda>d tz fmt. ascii ''2024-01-01''),
       Date_toString = (\<lambda>d. ascii ''Mon Jan 01 2024 00:00:00 GMT+0900 (Japan Standard Time)''),
       Utilities_base64Encode = (\<lambda>bytes. if bytes = [] then [] else ''AQID''),
       Unicode_toLowerCase = map lower_char \<rparr>"

text \<open>
  Rows 2 to 4 under the header row: a row with a title and one link, a blank row, and a
  row with a title and a link in the thirteenth column.
\<close>

definition example_sheet :: sheet where
  "example_sheet =
     \<lparr> getLastRow = 4,
       cell = (\<lambda>r c.
          if r = 2 \<and> c = 3 then JSString (ascii ''First'')
          else if r = 2 \<and> c = 8 then JSString (ascii ''https://a.example'')
          else if r = 4 \<and> c = 3 then JSString (ascii ''Third'')
          else if r = 4 \<and> c = 13 then JSString (ascii ''https://m.example'')
          else JSString []) \<rparr>"

text \<open>One data row, every cell of which holds the number 0.\<close>

definition zero_sheet :: sheet where
  "zero_sheet = \<lparr> getLastRow = 2, cell = (\<lambda>r c. if r = 2 then JSNumber 0 else JSString []) \<rparr>"

text \<open>
  One data row: the text T in columns 1 to 6, the number 0 in every column from 7 on.
\<close>

definition zero_links_sheet :: sheet where
  "zero_links_sheet =
     \<lparr> getLastRow = 2,
       cell = (\<lambda>r c. if r = 2 then (if c \<le> 6 then JSString (ascii ''T'') else JSNumber 0)
                      else JSString []) \<rparr>"

text \<open>
  A folder with a PNG file, a PDF file whose bytes cannot be read, and a JPEG file.
\<close>

definition example_files :: "drive_file list" where
  "example_files =
     [ \<lparr> getId = ''id-png'', getMimeType = ''image/png'', getBlob_getBytes = Inr [1, 2, 3] \<rparr>,
       \<lparr> getId = ''id-pdf'', getMimeType = ''application/pdf'',
         getBlob_getBytes = Inl (JSError ''Exception'' ''File too large'') \<rparr>,
       \<lparr> getId = ''id-jpg'', getMimeType = ''image/jpeg'', getBlob_getBytes = Inr [] \<rparr> ]"

definition example_spreadsheet :: "sheet \<Rightarrow> spreadsheet" where
  "example_spreadsheet sh =
     \<lparr> getSheetByName = (\<lambda>n. if n = Some ''Portfolio'' then Some sh else None) \<rparr>"

definition env_of_sheet :: "sheet \<Rightarrow> env" where
  "env_of_sheet sh =
     \<lparr> SPREADSHEET_ID = Some ''sheet-id'',
       SHEET_NAME = Some ''Portfolio'',
       DRIVE_FOLDER_ID = Some ''folder-id'',
       SpreadsheetApp_openById = (\<lambda>i. Inr (example_spreadsheet sh)),
       DriveApp_getFolderById = (\<lambda>i. Inr \<lparr> getFiles = example_files \<rparr>) \<rparr>"

definition images_event :: "event option" where
  "images_event = Some \<lparr> parameter = Some (\<lambda>k. if k = ''action'' then Some ''images'' else None) \<rparr>"

definition id_event :: "event option" where
  "id_event = Some \<lparr> parameter = Some (\<lambda>k. if k = ''id'' then Some ''project-001'' else None) \<rparr>"

text \<open>
  One data row with a Date, a title in Japanese between two ideographic spaces (U+3000),
  the fraction 1.5 as tags, NaN as the commission flag, the boolean true and the number
  \<open>1e21\<close> in two link columns, and the number 0 elsewhere.
\<close>

definition mixed_sheet :: sheet where
  "mixed_sheet =
     \<lparr> getLastRow = 2,
       cell = (\<lambda>r c.
          if r = 2 \<and> c = 2 then JSDate 1704034800000
          else if r = 2 \<and> c = 3 then JSString [0x3000, 0x4F5C, 0x54C1, 0x3000]
          else if r = 2 \<and> c = 6 then JSNumber 0x3FF8000000000000
          else if r = 2 \<and> c = 7 then JSNumber 0x7FF8000000000000
          else if r = 2 \<and> c = 8 then JSBoolean True
          else if r = 2 \<and> c = 9 then JSNumber 0x444B1AE4D6E2EF50
          else if r = 2 then JSNumber 0
          else JSString []) \<rparr>"

text \<open>
  A runtime \<open>Utilities.formatDate\<close> that formats a Date and raises on any other
  argument.
\<close>

definition example_formatDate_call :: "jsval \<Rightarrow> string \<Rightarrow> string \<Rightarrow> jserror + jsstring" where
  "example_formatDate_call v tz fmt =
     (case v of
        JSDate d \<Rightarrow> Inr (Utilities_formatDate example_platform d tz fmt)
      | _ \<Rightarrow> Inl (JSError ''Exception''
                 ''The parameters do not match the method signature for Utilities.formatDate.''))"

text \<open>Requests with both an \<open>action\<close> and an \<open>id\<close> parameter.\<close>

definition images_id_event :: "event option" where
  "images_id_event =
     Some \<lparr> parameter = Some (\<lambda>k. if k = ''action'' then Some ''images''
                                  else if k = ''id'' then Some ''project-001'' else None) \<rparr>"

definition items_id_event :: "event option" where
  "items_id_event =
     Some \<lparr> parameter = Some (\<lambda>k. if k = ''action'' then Some ''items''
                                  else if k = ''id'' then Some ''images'' else None) \<rparr>"

section \<open>Properties of the string helpers\<close>

declare int_digits.simps [simp del]

lemma int_digits_not_Nil: "int_digits i \<noteq> []"
  by (subst int_digits.simps) simp

lemma ascii_not_Nil: "s \<noteq> [] \<Longrightarrow> ascii s \<noteq> []"
  by (simp add: ascii_def)

lemma format_decimal_not_Nil: "format_decimal s t \<noteq> []"
  by (simp add: format_decimal_def Let_def int_digits_not_Nil ascii_def)

lemma Number_toString_not_Nil: "Number_toString b \<noteq> []"
  by (simp add: Number_toString_def format_decimal_not_Nil ascii_def split: prod.splits)

lemma String_or_empty_eq: "String_or_empty P v = (if falsy v then [] else String_of P v)"
  by (simp add: String_or_empty_def js_or_def)

lemma String_of_truthy:
  assumes "\<And>d. Date_toString P d \<noteq> []" and "\<not> falsy v"
  shows "String_of P v \<noteq> []"
  using assms by (cases v) (simp_all add: Number_toString_not_Nil ascii_def)

lemma split_comma_not_Nil: "split_comma s \<noteq> []"
  by (induction s) (auto split: list.splits)

text \<open>The pieces, each followed by a comma, give back the string followed by a comma.\<close>

lemma split_comma_join: "concat (map (\<lambda>p. p @ [comma]) (split_comma s)) = s @ [comma]"
proof (induction s)
  case Nil
  show ?case by simp
next
  case (Cons c cs)
  show ?case
  proof (cases "split_comma cs")
    case Nil
    with split_comma_not_Nil show ?thesis by blast
  next
    case (Cons p ps)
    with Cons.IH show ?thesis by auto
  qed
qed

lemma split_comma_no_comma: "p \<in> set (split_comma s) \<Longrightarrow> comma \<notin> set p"
proof (induction s arbitrary: p)
  case Nil
  then show ?case by simp
next
  case (Cons c cs)
  then show ?case
    by (cases "split_comma cs") (auto split: if_splits)
qed

lemma set_trim: "set (trim s) \<subseteq> set s"
proof -
  have "set (trim s) \<subseteq> set (dropWhile isWhiteSpace s)"
    unfolding trim_def using set_dropWhileD by fastforce
  also have "\<dots> \<subseteq> set s"
    using set_dropWhileD by fastforce
  finally show ?thesis .
qed

lemma trim_hd: "trim s \<noteq> [] \<Longrightarrow> \<not> isWhiteSpace (hd (trim s))"
proof -
  assume ne: "trim s \<noteq> []"
  let ?d = "dropWhile isWhiteSpace s"
  have "trim s @ rev (takeWhile isWhiteSpace (rev ?d)) =
        rev (takeWhile isWhiteSpace (rev ?d) @ dropWhile isWhiteSpace (rev ?d))"
    by (simp only: trim_def rev_append)
  also have "\<dots> = rev (rev ?d)" by (simp only: takeWhile_dropWhile_id)
  finally have split: "?d = trim s @ rev (takeWhile isWhiteSpace (rev ?d))" by simp
  with ne have "hd ?d = hd (trim s)"
    by (metis hd_append2)
  moreover from split ne have "?d \<noteq> []" by (metis append_is_Nil_conv)
  then have "\<not> isWhiteSpace (hd ?d)" by (rule hd_dropWhile)
  ultimately show ?thesis by simp
qed

lemma trim_last: "trim s \<noteq> [] \<Longrightarrow> \<not> isWhiteSpace (last (trim s))"
proof -
  assume ne: "trim s \<noteq> []"
  let ?d = "dropWhile isWhiteSpace (rev (dropWhile isWhiteSpace s))"
  from ne have d: "?d \<noteq> []" by (simp add: trim_def)
  then have "\<not> isWhiteSpace (hd ?d)" by (rule hd_dropWhile)
  moreover have "last (trim s) = hd ?d" using d by (simp add: trim_def last_rev)
  ultimately show ?thesis by simp
qed

lemma parseTags_eq:
  "parseTags P v =
     (if falsy v then [] else filter (\<lambda>t. t \<noteq> []) (map trim (split_comma (String_of P v))))"
  by (simp add: parseTags_def)

lemma parseTags_member:
  assumes "t \<in> set (parseTags P v)"
  shows "t \<noteq> [] \<and> \<not> isWhiteSpace (hd t) \<and> \<not> isWhiteSpace (last t) \<and> comma \<notin> set t"
proof -
  from assms obtain p where p: "p \<in> set (split_comma (String_of P v))" and t: "t = trim p"
    and ne: "t \<noteq> []"
    by (auto simp: parseTags_eq split: if_splits)
  from p have "comma \<notin> set p" by (rule split_comma_no_comma)
  with set_trim [of p] t have "comma \<notin> set t" by blast
  with ne t trim_hd [of p] trim_last [of p] show ?thesis by simp
qed

section \<open>Properties of getPortfolioItems\<close>

lemma portfolio_items_length:
  "length (portfolio_items P vs) = length (filter title_present vs)"
  by (simp add: portfolio_items_def)

lemma portfolio_items_nth:
  "k < length (filter title_present vs) \<Longrightarrow>
   portfolio_items P vs ! k = make_item P (filter title_present vs ! k) k"
  by (simp add: portfolio_items_def nth_enumerate_eq)

lemma portfolio_items_ids:
  "map item_id (portfolio_items P vs) = [0..<length (filter title_present vs)]"
  by (rule nth_equalityI) (simp_all add: portfolio_items_length portfolio_items_nth make_item_def)

lemma portfolio_items_filter:
  "portfolio_items P (filter title_present vs) = portfolio_items P vs"
  by (simp add: portfolio_items_def)

lemma data_values_empty: "getLastRow sh \<le> 1 \<Longrightarrow> data_values sh = []"
  by (simp add: getRange_getValues_def)

lemma getPortfolioItems_resolved:
  assumes "SpreadsheetApp_openById E (SPREADSHEET_ID E) = Inr sp"
    and "getSheetByName sp (SHEET_NAME E) = Some sh"
  shows "getPortfolioItems P E = Inr (portfolio_items P (data_values sh))"
proof (cases "getLastRow sh \<le> 1")
  case True
  then have "data_values sh = []"
    by (rule data_values_empty)
  then have "portfolio_items P (data_values sh) = []"
    by (simp add: portfolio_items_def)
  with True assms show ?thesis by (simp add: getPortfolioItems_def)
next
  case False
  with assms show ?thesis by (simp add: getPortfolioItems_def)
qed

lemma links_make_item:
  assumes "\<And>d. Date_toString P d \<noteq> []"
  shows "links (make_item P row k) =
         map (\<lambda>key. \<lparr> label = key, url = String_of P (js_index row (COL (K_link key))) \<rparr>)
             (filter (\<lambda>key. \<not> falsy (js_index row (COL (K_link key)))) LINK_KEYS)"
proof -
  have "filter (\<lambda>link. url link \<noteq> [])
          (map (\<lambda>key. \<lparr> label = key, url = String_or_empty P (js_index row (COL (K_link key))) \<rparr>) ks)
        = map (\<lambda>key. \<lparr> label = key, url = String_of P (js_index row (COL (K_link key))) \<rparr>)
             (filter (\<lambda>key. \<not> falsy (js_index row (COL (K_link key)))) ks)" for ks
    by (induction ks) (simp_all add: String_or_empty_eq String_of_truthy [OF assms])
  then show ?thesis by (simp add: make_item_def)
qed


lemma getPortfolioItems_Inr_iff:
  "getPortfolioItems P E = Inr items \<longleftrightarrow>
   (\<exists>sp sh. SpreadsheetApp_openById E (SPREADSHEET_ID E) = Inr sp
      \<and> getSheetByName sp (SHEET_NAME E) = Some sh
      \<and> items = portfolio_items P (data_values sh))"
proof (cases "SpreadsheetApp_openById E (SPREADSHEET_ID E)")
  case (Inl err)
  then show ?thesis by (simp add: getPortfolioItems_def)
next
  case (Inr sp)
  show ?thesis
  proof (cases "getSheetByName sp (SHEET_NAME E)")
    case None
    with Inr show ?thesis by (simp add: getPortfolioItems_def)
  next
    case (Some sh)
    with Inr getPortfolioItems_resolved [OF Inr Some, of P] show ?thesis by auto
  qed
qed

lemma data_values_row_length: "row \<in> set (data_values sh) \<Longrightarrow> length row = COLUMN_COUNT"
  by (auto simp: getRange_getValues_def)

text \<open>
  The key of the generic link is looked up at index 13, past the last index of a row of
  13 cells: no item of any sheet carries a link with that label.
\<close>

lemma generic_link_never_emitted:
  assumes "getPortfolioItems P E = Inr items" and "item \<in> set items"
  shows "Link \<notin> label ` set (links item)"
proof -
  from assms(1) obtain sh where items: "items = portfolio_items P (data_values sh)"
    by (auto simp: getPortfolioItems_Inr_iff)
  with assms(2) obtain k where k: "k < length (filter title_present (data_values sh))"
    and item: "item = make_item P (filter title_present (data_values sh) ! k) k"
    by (metis in_set_conv_nth portfolio_items_length portfolio_items_nth)
  let ?row = "filter title_present (data_values sh) ! k"
  from k have "?row \<in> set (filter title_present (data_values sh))" by (rule nth_mem)
  then have "?row \<in> set (data_values sh)" by simp
  then have "length ?row = COLUMN_COUNT" by (rule data_values_row_length)
  then have "js_index ?row (COL (K_link Link)) = JSUndefined"
    by (simp add: js_index_def COLUMN_COUNT_def)
  then have "String_or_empty P (js_index ?row (COL (K_link Link))) = []"
    by (simp add: String_or_empty_eq)
  then show ?thesis
    unfolding item make_item_def by auto
qed

section \<open>Properties of getDriveImages\<close>

lemma images_loop_filter:
  "images_loop P (filter (\<lambda>f. getMimeType f \<in> set imageMimeTypes) files) acc
   = images_loop P files acc"
  by (induction files arbitrary: acc) (simp_all split: sum.splits)

lemma images_loop_Inr:
  assumes "images_loop P files acc = Inr images"
  shows "images = acc @ map (\<lambda>f. \<lparr> name = getId f, mimeType = getMimeType f,
                                    data = Utilities_base64Encode P (projr (getBlob_getBytes f)) \<rparr>)
                          (filter (\<lambda>f. getMimeType f \<in> set imageMimeTypes) files)
         \<and> (\<forall>f \<in> set (filter (\<lambda>f. getMimeType f \<in> set imageMimeTypes) files).
               \<not> isl (getBlob_getBytes f))"
  using assms
proof (induction files arbitrary: acc)
  case Nil
  then show ?case by simp
next
  case (Cons f files)
  show ?case
  proof (cases "getMimeType f \<in> set imageMimeTypes")
    case False
    with Cons show ?thesis by simp
  next
    case True
    show ?thesis
    proof (cases "getBlob_getBytes f")
      case (Inl err)
      with True Cons.prems show ?thesis by simp
    next
      case (Inr bytes)
      with True Cons.prems
      have "images_loop P files (acc @ [\<lparr> name = getId f, mimeType = getMimeType f,
                               data = Utilities_base64Encode P bytes \<rparr>]) = Inr images"
        by simp
      from Cons.IH [OF this] True Inr show ?thesis by simp
    qed
  qed
qed

lemma images_loop_readable:
  assumes "\<forall>f \<in> set files. getMimeType f \<in> set imageMimeTypes \<longrightarrow> \<not> isl (getBlob_getBytes f)"
  shows "\<exists>images. images_loop P files acc = Inr images"
  using assms
proof (induction files arbitrary: acc)
  case Nil
  then show ?case by simp
next
  case (Cons f files)
  then show ?case by (cases "getBlob_getBytes f") auto
qed

lemma getDriveImages_resolved:
  assumes "DRIVE_FOLDER_ID E = Some fid" and "fid \<noteq> []" and "DriveApp_getFolderById E fid = Inr fld"
  shows "getDriveImages P E = images_loop P (getFiles fld) []"
  using assms by (simp add: getDriveImages_def)

section \<open>Properties of doGet\<close>

lemma request_action_images: "request_action e = ''images'' \<longleftrightarrow> action_param e = Some ''images''"
  by (auto simp: request_action_def split: option.splits if_splits)

lemma doGet_items:
  assumes "action_param e \<noteq> Some ''images''"
  shows "doGet P E e =
    (case getPortfolioItems P E of
       Inr items \<Rightarrow> (\<lparr> mime = JSON, content = ItemsBody items \<rparr>, [])
     | Inl err \<Rightarrow>
         (\<lparr> mime = JSON, content = ErrorBody True (''Internal server error: '' @ Error_toString err) 500 \<rparr>,
          [''Error in doGet: '' @ Error_toString err]))"
  using assms
  by (simp add: doGet_def request_action_images createErrorResponse_def split: sum.splits)

lemma doGet_images:
  assumes "action_param e = Some ''images''"
  shows "doGet P E e =
    (case getDriveImages P E of
       Inr images \<Rightarrow> (\<lparr> mime = JSON, content = ImagesBody images \<rparr>, [])
     | Inl err \<Rightarrow>
         (\<lparr> mime = JSON, content = ErrorBody True (''Internal server error: '' @ Error_toString err) 500 \<rparr>,
          [''Error in doGet: '' @ Error_toString err]))"
  using assms
  by (simp add: doGet_def request_action_images createErrorResponse_def split: sum.splits)

lemma getPortfolioItems_Inl_iff:
  "getPortfolioItems P E = Inl err \<longleftrightarrow>
   (SpreadsheetApp_openById E (SPREADSHEET_ID E) = Inl err
    \<or> (\<exists>sp. SpreadsheetApp_openById E (SPREADSHEET_ID E) = Inr sp
          \<and> getSheetByName sp (SHEET_NAME E) = None
          \<and> err = new_Error (''Sheet \"'' @ (case SHEET_NAME E of None \<Rightarrow> ''null'' | Some n \<Rightarrow> n)
                              @ ''\" not found'')))"
proof (cases "SpreadsheetApp_openById E (SPREADSHEET_ID E)")
  case (Inl e)
  then show ?thesis by (simp add: getPortfolioItems_def)
next
  case (Inr sp)
  show ?thesis
  proof (cases "getSheetByName sp (SHEET_NAME E)")
    case None
    with Inr show ?thesis by (auto simp: getPortfolioItems_def)
  next
    case (Some sh)
    with Inr getPortfolioItems_resolved [OF Inr Some, of P] show ?thesis by simp
  qed
qed

lemma getDriveImages_unset:
  "DRIVE_FOLDER_ID E = None \<or> DRIVE_FOLDER_ID E = Some [] \<Longrightarrow>
   getDriveImages P E = Inl (new_Error ''DRIVE_FOLDER_ID is not set in script properties'')"
  by (auto simp: getDriveImages_def)

lemma doGet_error_code:
  "content (fst (doGet P E e)) = ErrorBody b m c \<Longrightarrow> b \<and> c = 500"
  by (cases "action_param e = Some ''images''")
     (auto simp: doGet_items doGet_images split: sum.splits)

lemma doGet_mime: "mime (fst (doGet P E e)) = JSON"
  by (cases "action_param e = Some ''images''")
     (auto simp: doGet_items doGet_images split: sum.splits)

lemma action_param_images_iff:
  "action_param e = Some ''images'' \<longleftrightarrow>
   (\<exists>ev ps. e = Some ev \<and> parameter ev = Some ps \<and> ps ''action'' = Some ''images'')"
  by (auto simp: action_param_def split: option.splits)

section \<open>The helpers never raise\<close>

lemma and_then_Inr [simp]: "and_then (Inr x) k = k x"
  by (simp add: and_then_def)

lemma and_then_Inl [simp]: "and_then (Inl err) k = Inl err"
  by (simp add: and_then_def)

lemma map_raising_Inr:
  "(\<And>x. x \<in> set xs \<Longrightarrow> g x = Inr (h x)) \<Longrightarrow> map_raising g xs = Inr (map h xs)"
  by (induction xs) simp_all

lemma filter_raising_Inr:
  "(\<And>x. x \<in> set xs \<Longrightarrow> g x = Inr (p x)) \<Longrightarrow> filter_raising g xs = Inr (filter p xs)"
  by (induction xs) simp_all

lemma map_raising_length:
  "map_raising g xs = Inr ys \<Longrightarrow> length ys = length xs"
proof (induction xs arbitrary: ys)
  case Nil
  then show ?case by simp
next
  case (Cons x xs)
  then show ?case
    by (cases "g x"; cases "map_raising g xs") auto
qed

text \<open>
  A method call on a value that is not a string raises: had \<open>parseTags\<close> called
  \<open>split\<close> on the cell itself, a numeric cell would raise.
\<close>

lemma call_split_comma_number: "call_split_comma (JSNumber n) = Inl (TypeError ''split is not a function'')"
  by (simp add: call_split_comma_def)

lemma formatDate_raw_eq:
  assumes "\<And>d. U (JSDate d) ''Asia/Tokyo'' ''yyyy-MM-dd''
                = Inr (Utilities_formatDate P d ''Asia/Tokyo'' ''yyyy-MM-dd'')"
  shows "formatDate_raw U P v = Inr (formatDate P v)"
  using assms by (cases v) (simp_all add: formatDate_raw_def formatDate_def)

lemma parseTags_raw_eq: "parseTags_raw P v = Inr (parseTags P v)"
proof (cases "falsy v")
  case True
  then show ?thesis by (simp add: parseTags_raw_def parseTags_def)
next
  case False
  let ?pieces = "split_comma (String_of P v)"
  have split: "call_split_comma (String_call P v) = Inr ?pieces"
    by (simp add: call_split_comma_def String_call_def)
  have trimmed: "map_raising (\<lambda>tag. call_trim (JSString tag)) ?pieces = Inr (map trim ?pieces)"
    by (rule map_raising_Inr) (simp add: call_trim_def)
  have kept: "filter_raising (\<lambda>tag. length_positive (JSString tag)) (map trim ?pieces)
              = Inr (filter (\<lambda>tag. length tag > 0) (map trim ?pieces))"
    by (rule filter_raising_Inr) (simp add: length_positive_def)
  from False split trimmed kept show ?thesis
    by (simp add: parseTags_raw_def parseTags_def)
qed

lemma parseBoolean_raw_eq: "parseBoolean_raw P v = Inr (parseBoolean P v)"
  by (cases v)
     (simp_all add: parseBoolean_raw_def parseBoolean_def String_call_def call_toLowerCase_def
        call_trim_def Let_def)

lemma String_or_empty_raw_eq: "String_or_empty_raw P v = Inr (String_or_empty P v)"
  by (simp add: String_or_empty_raw_def String_or_empty_def)

lemma make_item_raw_eq:
  assumes "\<And>d. U (JSDate d) ''Asia/Tokyo'' ''yyyy-MM-dd''
                = Inr (Utilities_formatDate P d ''Asia/Tokyo'' ''yyyy-MM-dd'')"
  shows "make_item_raw U P row k = Inr (make_item P row k)"
proof -
  have "map_raising
          (\<lambda>key. and_then (String_or_empty_raw P (js_index row (COL (K_link key))))
                   (\<lambda>u. Inr \<lparr> label = key, url = u \<rparr>))
          LINK_KEYS
        = Inr (map (\<lambda>key. \<lparr> label = key,
                              url = String_or_empty P (js_index row (COL (K_link key))) \<rparr>)
                   LINK_KEYS)"
    by (rule map_raising_Inr) (simp add: String_or_empty_raw_eq)
  then show ?thesis
    by (simp add: make_item_raw_def make_item_def formatDate_raw_eq [of U P, OF assms]
          String_or_empty_raw_eq parseTags_raw_eq parseBoolean_raw_eq)
qed

lemma portfolio_items_raw_eq:
  assumes "\<And>d. U (JSDate d) ''Asia/Tokyo'' ''yyyy-MM-dd''
                = Inr (Utilities_formatDate P d ''Asia/Tokyo'' ''yyyy-MM-dd'')"
  shows "portfolio_items_raw U P values = Inr (portfolio_items P values)"
  unfolding portfolio_items_raw_def portfolio_items_def
  by (rule map_raising_Inr) (auto simp: make_item_raw_eq [of U P, OF assms])

lemma getPortfolioItems_raw_eq:
  assumes "\<And>d. U (JSDate d) ''Asia/Tokyo'' ''yyyy-MM-dd''
                = Inr (Utilities_formatDate P d ''Asia/Tokyo'' ''yyyy-MM-dd'')"
  shows "getPortfolioItems_raw U P E = getPortfolioItems P E"
  unfolding getPortfolioItems_raw_def getPortfolioItems_def
    portfolio_items_raw_eq [of U P, OF assms]
  by (rule refl)

lemma doGet_raw_eq:
  assumes "\<And>d. U (JSDate d) ''Asia/Tokyo'' ''yyyy-MM-dd''
                = Inr (Utilities_formatDate P d ''Asia/Tokyo'' ''yyyy-MM-dd'')"
  shows "doGet_raw U P E e = doGet P E e"
  by (simp add: doGet_raw_def doGet_def getPortfolioItems_raw_eq [of U P, OF assms])

lemma portfolio_items_raw_all_or_nothing:
  "portfolio_items_raw U P values = Inr items \<Longrightarrow> length items = length (filter title_present values)"
  unfolding portfolio_items_raw_def by (drule map_raising_length) simp

lemma getPortfolioItems_raw_all_or_nothing:
  assumes "getPortfolioItems_raw U P E = Inr items"
  shows "\<exists>sp sh. SpreadsheetApp_openById E (SPREADSHEET_ID E) = Inr sp
           \<and> getSheetByName sp (SHEET_NAME E) = Some sh
           \<and> length items = length (filter title_present (data_values sh))"
proof (cases "SpreadsheetApp_openById E (SPREADSHEET_ID E)")
  case (Inl err)
  with assms show ?thesis by (simp add: getPortfolioItems_raw_def)
next
  case (Inr sp)
  show ?thesis
  proof (cases "getSheetByName sp (SHEET_NAME E)")
    case None
    with Inr assms show ?thesis by (simp add: getPortfolioItems_raw_def)
  next
    case (Some sh)
    show ?thesis
    proof (cases "getLastRow sh \<le> 1")
      case True
      then have "data_values sh = []" by (rule data_values_empty)
      with True Inr Some assms show ?thesis by (simp add: getPortfolioItems_raw_def)
    next
      case False
      with Inr Some assms have "portfolio_items_raw U P (data_values sh) = Inr items"
        by (simp add: getPortfolioItems_raw_def)
      then have "length items = length (filter title_present (data_values sh))"
        by (rule portfolio_items_raw_all_or_nothing)
      with Inr Some show ?thesis by simp
    qed
  qed
qed

section \<open>The claims\<close>

subsection \<open>Identifiers\<close>

text \<open>
  Claim C1. For every value grid, the \<open>id\<close> fields of the items are 0, 1, 2, ... in
  row order among the rows that pass the title filter: the item at position \<open>k\<close> is
  built from the \<open>k\<close>-th retained row and has id \<open>k\<close>, and the rows whose title cell
  is undefined or the empty string change nothing in the output. The title cell of a row is
  \<open>row[COL.title]\<close>, as the filter reads it. Every successful result of
  \<open>getPortfolioItems\<close> is such a list.
\<close>

theorem item_ids_are_ranks:
  "map item_id (portfolio_items P values) = [0..<length (filter title_present values)]
   \<and> portfolio_items P (filter title_present values) = portfolio_items P values
   \<and> (\<forall>k < length (filter title_present values).
         portfolio_items P values ! k = make_item P (filter title_present values ! k) k
         \<and> item_id (portfolio_items P values ! k) = k)
   \<and> (getPortfolioItems P E = Inr items \<longrightarrow>
         (\<exists>sh. items = portfolio_items P (data_values sh)))
   \<and> (SpreadsheetApp_openById E (SPREADSHEET_ID E) = Inr sp
        \<and> getSheetByName sp (SHEET_NAME E) = Some sh \<longrightarrow>
         getPortfolioItems P E = Inr (portfolio_items P (data_values sh)))"
proof -
  have nth: "\<forall>k < length (filter title_present values).
         portfolio_items P values ! k = make_item P (filter title_present values ! k) k
         \<and> item_id (portfolio_items P values ! k) = k"
    by (simp add: portfolio_items_nth make_item_def)
  have inr: "getPortfolioItems P E = Inr items \<longrightarrow>
         (\<exists>sh. items = portfolio_items P (data_values sh))"
    by (auto simp: getPortfolioItems_Inr_iff)
  have res: "SpreadsheetApp_openById E (SPREADSHEET_ID E) = Inr sp
        \<and> getSheetByName sp (SHEET_NAME E) = Some sh \<longrightarrow>
         getPortfolioItems P E = Inr (portfolio_items P (data_values sh))"
    using getPortfolioItems_resolved by blast
  from portfolio_items_ids [of P "values"] portfolio_items_filter [of P "values"] nth inr res
  show ?thesis by (intro conjI)
qed

theorem item_ids_are_ranks_witness:
  "getPortfolioItems example_platform (env_of_sheet example_sheet)
     = Inr (portfolio_items example_platform (data_values example_sheet))
   \<and> map title (portfolio_items example_platform (data_values example_sheet)) = [ascii ''First'', ascii ''Third'']
   \<and> map item_id (portfolio_items example_platform (data_values example_sheet)) = [0, 1]"
proof -
  let ?E = "env_of_sheet example_sheet"
  note spec = item_ids_are_ranks [of example_platform "data_values example_sheet" ?E
      "[]" "example_spreadsheet example_sheet" example_sheet]
  have res: "SpreadsheetApp_openById ?E (SPREADSHEET_ID ?E) = Inr (example_spreadsheet example_sheet)
      \<and> getSheetByName (example_spreadsheet example_sheet) (SHEET_NAME ?E) = Some example_sheet"
    by (simp add: env_of_sheet_def example_spreadsheet_def)
  from spec [THEN conjunct2, THEN conjunct2, THEN conjunct2, THEN conjunct2] res
  have a: "getPortfolioItems example_platform ?E
     = Inr (portfolio_items example_platform (data_values example_sheet))"
    by (rule mp)
  have n: "length (filter title_present (data_values example_sheet)) = 2" by code_simp
  have u: "[0..<2] = [0, 1::nat]" by code_simp
  from spec [THEN conjunct1]
  have b: "map item_id (portfolio_items example_platform (data_values example_sheet)) = [0, 1]"
    by (simp only: n u)
  have c: "map title (portfolio_items example_platform (data_values example_sheet)) = [ascii ''First'', ascii ''Third'']"
    by code_simp
  from a b c show ?thesis by (intro conjI)
qed

subsection \<open>Titles\<close>

text \<open>
  Claim C2. Every item has a non-empty title: a row is retained only if its title cell is
  neither undefined nor the empty string, and the title of a retained row is non-empty.
  The code does not achieve this. On a sheet whose only data row holds the number 0 in
  every cell, the title cell passes the filter, which compares the raw cell with
  \<open>undefined\<close> and \<open>''\<close>, and the coercion \<open>String(0 || '')\<close> then gives the empty
  title. The filter on links tests the coerced string instead.
\<close>

theorem zero_title_cell_yields_empty_title:
  "cell zero_sheet 2 2 = JSNumber 0 \<and> cell zero_sheet 2 3 = JSNumber 0
   \<and> title_present (hd (data_values zero_sheet))
   \<and> getPortfolioItems example_platform (env_of_sheet zero_sheet)
       = Inr [\<lparr> item_id = 0, date = [], title = [], description = [], imageUrl = [],
                tags = [], links = [], isCommision = False \<rparr>]"
  by code_simp

subsection \<open>Links\<close>

text \<open>
  Claim C3, as stated: the links of a retained row hold one entry for each of the seven
  link columns whose cell is non-empty. This fails where a link cell holds the number 0:
  on the sheet below every cell from column 7 on holds 0, and the item has no link.
\<close>

theorem zero_link_cells_counterexample:
  "map (cell zero_links_sheet 2) [7, 8, 9, 10, 11, 12, 13, 14]
     = [JSNumber 0, JSNumber 0, JSNumber 0, JSNumber 0, JSNumber 0, JSNumber 0, JSNumber 0, JSNumber 0]
   \<and> getPortfolioItems example_platform (env_of_sheet zero_links_sheet)
       = Inr [\<lparr> item_id = 0, date = ascii ''T'', title = ascii ''T'', description = ascii ''T'',
                imageUrl = ascii ''T'',
                tags = [ascii ''T''], links = [], isCommision = False \<rparr>]"
  by code_simp

text \<open>
  Claim C3, amended. For every retained row, \<open>links\<close> holds, in the order of
  \<open>LINK_KEYS\<close>, exactly one entry for each key whose value \<open>row[COL[key]]\<close> is truthy
  (not undefined, null, the empty string, 0, NaN or false), with the key as label and the
  stringification of the value as url; no entry has an empty url. A Date is assumed to
  stringify to a non-empty string. Which column of the sheet a key's index reaches is not
  part of the statement.
\<close>

theorem links_of_truthy_cells:
  fixes sh :: sheet and k :: nat
  defines "row \<equiv> filter title_present (data_values sh) ! k"
  assumes dates: "\<And>d. Date_toString P d \<noteq> []"
    and opened: "SpreadsheetApp_openById E (SPREADSHEET_ID E) = Inr sp"
    and found: "getSheetByName sp (SHEET_NAME E) = Some sh"
    and k: "k < length (filter title_present (data_values sh))"
  shows "getPortfolioItems P E = Inr (portfolio_items P (data_values sh))
   \<and> links (portfolio_items P (data_values sh) ! k)
       = map (\<lambda>key. \<lparr> label = key, url = String_of P (js_index row (COL (K_link key))) \<rparr>)
             (filter (\<lambda>key. \<not> falsy (js_index row (COL (K_link key)))) LINK_KEYS)
   \<and> (\<forall>l \<in> set (links (portfolio_items P (data_values sh) ! k)). url l \<noteq> [])"
proof -
  have item: "portfolio_items P (data_values sh) ! k = make_item P row k"
    using k by (simp add: portfolio_items_nth row_def)
  have "\<forall>l \<in> set (links (make_item P row k)). url l \<noteq> []"
    by (simp add: make_item_def)
  with item links_make_item [OF dates, of row k] getPortfolioItems_resolved [OF opened found, of P]
  show ?thesis by simp
qed

theorem links_of_truthy_cells_witness:
  "getPortfolioItems example_platform (env_of_sheet example_sheet)
     = Inr (portfolio_items example_platform (data_values example_sheet))
   \<and> links (portfolio_items example_platform (data_values example_sheet) ! 0)
     = [\<lparr> label = Amazon, url = ascii ''https://a.example'' \<rparr>]"
proof -
  let ?E = "env_of_sheet example_sheet"
  have dates: "\<And>d. Date_toString example_platform d \<noteq> []"
    by (simp add: example_platform_def ascii_def)
  have opened: "SpreadsheetApp_openById ?E (SPREADSHEET_ID ?E) = Inr (example_spreadsheet example_sheet)"
    by (simp add: env_of_sheet_def)
  have found: "getSheetByName (example_spreadsheet example_sheet) (SHEET_NAME ?E) = Some example_sheet"
    by (simp add: env_of_sheet_def example_spreadsheet_def)
  have k: "0 < length (filter title_present (data_values example_sheet))" by code_simp
  note spec = links_of_truthy_cells [OF dates opened found k]
  have "map (\<lambda>key. \<lparr> label = key,
            url = String_of example_platform
                    (js_index (filter title_present (data_values example_sheet) ! 0) (COL (K_link key))) \<rparr>)
          (filter (\<lambda>key. \<not> falsy (js_index (filter title_present (data_values example_sheet) ! 0)
                                     (COL (K_link key)))) LINK_KEYS)
        = [\<lparr> label = Amazon, url = ascii ''https://a.example'' \<rparr>]"
    by code_simp
  with spec show ?thesis by simp
qed

subsection \<open>parseBoolean\<close>

text \<open>
  Claim C4. \<open>parseBoolean\<close> returns a native boolean unchanged; it returns false for
  every falsy value that is not a boolean (the empty string, 0, null, undefined); for every
  other value it returns true exactly when the lower-cased, trimmed stringification is
  \<open>true\<close>, \<open>1\<close> or \<open>yes\<close>. In particular the six listed calls give true, true,
  true, false, false and false.
\<close>

theorem parseBoolean_spec:
  "(\<forall>b. parseBoolean P (JSBoolean b) = b)
   \<and> (\<forall>v. (\<forall>b. v \<noteq> JSBoolean b) \<and> falsy v \<longrightarrow> parseBoolean P v = False)
   \<and> (\<forall>v. (\<forall>b. v \<noteq> JSBoolean b) \<and> \<not> falsy v \<longrightarrow>
          parseBoolean P v = (trim (toLowerCase P (String_of P v)) \<in> {ascii ''true'', ascii ''1'', ascii ''yes''}))
   \<and> parseBoolean P (JSBoolean True) = True
   \<and> parseBoolean P (JSString (ascii ''TRUE'')) = True
   \<and> parseBoolean P (JSString (ascii ''1'')) = True
   \<and> parseBoolean P (JSString (ascii ''no'')) = False
   \<and> parseBoolean P (JSNumber 0) = False
   \<and> parseBoolean P JSUndefined = False"
proof -
  have bool: "\<forall>b. parseBoolean P (JSBoolean b) = b"
    by (simp add: parseBoolean_def)
  have fls: "\<forall>v. (\<forall>b. v \<noteq> JSBoolean b) \<and> falsy v \<longrightarrow> parseBoolean P v = False"
    by (auto simp: parseBoolean_def split: jsval.splits)
  have str: "\<forall>v. (\<forall>b. v \<noteq> JSBoolean b) \<and> \<not> falsy v \<longrightarrow>
          parseBoolean P v = (trim (toLowerCase P (String_of P v)) \<in> {ascii ''true'', ascii ''1'', ascii ''yes''})"
    by (auto simp: parseBoolean_def Let_def split: jsval.splits)
  have e1: "parseBoolean P (JSBoolean True) = True" by code_simp
  have e2: "parseBoolean P (JSString (ascii ''TRUE'')) = True" by code_simp
  have e3: "parseBoolean P (JSString (ascii ''1'')) = True" by code_simp
  have e4: "parseBoolean P (JSString (ascii ''no'')) = False" by code_simp
  have e5: "parseBoolean P (JSNumber 0) = False" by code_simp
  have e6: "parseBoolean P JSUndefined = False" by code_simp
  from bool fls str e1 e2 e3 e4 e5 e6 show ?thesis by (intro conjI)
qed

theorem parseBoolean_spec_witness:
  "\<not> falsy (JSString (ascii '' Yes '')) \<and> parseBoolean example_platform (JSString (ascii '' Yes '')) = True
   \<and> falsy JSNull \<and> parseBoolean example_platform JSNull = False"
proof -
  let ?v = "JSString (ascii '' Yes '')"
  have t: "\<not> falsy ?v" by (simp add: ascii_def)
  have nb: "\<forall>b. ?v \<noteq> JSBoolean b" by simp
  note spec = parseBoolean_spec [of example_platform]
  note f = spec [THEN conjunct2, THEN conjunct1]
  note s = spec [THEN conjunct2, THEN conjunct2, THEN conjunct1]
  from s t nb have "parseBoolean example_platform ?v
          = (trim (toLowerCase example_platform (String_of example_platform ?v)) \<in> {ascii ''true'', ascii ''1'', ascii ''yes''})"
    by blast
  moreover have "trim (toLowerCase example_platform (String_of example_platform ?v)) = ascii ''yes''"
    by code_simp
  ultimately have y: "parseBoolean example_platform ?v = True" by simp
  from f have "parseBoolean example_platform JSNull = False" by simp
  with t y show ?thesis by simp
qed

subsection \<open>parseTags\<close>

text \<open>
  Claim C5. \<open>parseTags\<close> gives the empty sequence for a falsy value; otherwise it splits
  the stringification on commas (the pieces hold no comma and, joined by commas, give the
  string back), trims each piece and drops the pieces that are empty after trimming, so
  that every tag is non-empty, free of commas and free of white space at both ends. In
  particular the three listed calls give the three listed results.
\<close>

theorem parseTags_spec:
  "parseTags P v =
     (if falsy v then [] else filter (\<lambda>t. t \<noteq> []) (map trim (split_comma (String_of P v))))
   \<and> concat (map (\<lambda>p. p @ [comma]) (split_comma s)) = s @ [comma]
   \<and> (\<forall>p \<in> set (split_comma s). comma \<notin> set p)
   \<and> (\<forall>t \<in> set (parseTags P v).
         t \<noteq> [] \<and> \<not> isWhiteSpace (hd t) \<and> \<not> isWhiteSpace (last t) \<and> comma \<notin> set t)
   \<and> parseTags P (JSString (ascii ''React, TypeScript, GAS'')) = [ascii ''React'', ascii ''TypeScript'', ascii ''GAS'']
   \<and> parseTags P (JSString (ascii '''')) = []
   \<and> parseTags P (JSString (ascii ''a,,b'')) = [ascii ''a'', ascii ''b'']"
proof -
  have e1: "parseTags P (JSString (ascii ''React, TypeScript, GAS'')) = [ascii ''React'', ascii ''TypeScript'', ascii ''GAS'']"
    by code_simp
  have e2: "parseTags P (JSString (ascii '''')) = []" by code_simp
  have e3: "parseTags P (JSString (ascii ''a,,b'')) = [ascii ''a'', ascii ''b'']" by code_simp
  have m: "\<forall>t \<in> set (parseTags P v).
         t \<noteq> [] \<and> \<not> isWhiteSpace (hd t) \<and> \<not> isWhiteSpace (last t) \<and> comma \<notin> set t"
    using parseTags_member by blast
  have c: "\<forall>p \<in> set (split_comma s). comma \<notin> set p"
    using split_comma_no_comma by blast
  from parseTags_eq [of P v] split_comma_join [of s] c m e1 e2 e3 show ?thesis
    by (intro conjI)
qed

theorem parseTags_spec_witness:
  "ascii ''GAS'' \<in> set (parseTags example_platform (JSString (ascii ''React,  , GAS '')))
   \<and> \<not> isWhiteSpace (hd (ascii ''GAS'')) \<and> \<not> isWhiteSpace (last (ascii ''GAS''))
   \<and> parseTags example_platform (JSString (ascii ''React,  , GAS '')) = [ascii ''React'', ascii ''GAS'']"
proof -
  let ?v = "JSString (ascii ''React,  , GAS '')"
  have m: "ascii ''GAS'' \<in> set (parseTags example_platform ?v)" by code_simp
  note spec = parseTags_spec [of example_platform ?v "[]"]
  note all = spec [THEN conjunct2, THEN conjunct2, THEN conjunct2, THEN conjunct1]
  from all m have "\<not> isWhiteSpace (hd (ascii ''GAS'')) \<and> \<not> isWhiteSpace (last (ascii ''GAS''))" by blast
  moreover have "parseTags example_platform ?v = [ascii ''React'', ascii ''GAS'']" by code_simp
  ultimately show ?thesis using m by simp
qed

subsection \<open>The error envelope\<close>

text \<open>
  Claim C6. Whatever error the computation of the response raises, \<open>doGet\<close> returns the
  JSON output whose body is the envelope with \<open>error\<close> true, the message
  \<open>Internal server error: \<close> followed by the error's text, and \<open>statusCode\<close> 500. This
  covers the missing sheet and the unset folder id. No envelope carries another status
  code, and every output of \<open>doGet\<close> is a JSON text output: no error leaves \<open>doGet\<close>.
\<close>

theorem doGet_catches_every_error:
  "(action_param e = Some ''images'' \<and> getDriveImages P E = Inl err \<longrightarrow>
      fst (doGet P E e)
        = \<lparr> mime = JSON,
            content = ErrorBody True (''Internal server error: '' @ Error_toString err) 500 \<rparr>)
   \<and> (action_param e \<noteq> Some ''images'' \<and> getPortfolioItems P E = Inl err \<longrightarrow>
      fst (doGet P E e)
        = \<lparr> mime = JSON,
            content = ErrorBody True (''Internal server error: '' @ Error_toString err) 500 \<rparr>)
   \<and> (action_param e \<noteq> Some ''images''
        \<and> SpreadsheetApp_openById E (SPREADSHEET_ID E) = Inr sp
        \<and> getSheetByName sp (SHEET_NAME E) = None \<longrightarrow>
      content (fst (doGet P E e))
        = ErrorBody True
            (''Internal server error: Error: Sheet \"''
               @ (case SHEET_NAME E of None \<Rightarrow> ''null'' | Some n \<Rightarrow> n) @ ''\" not found'')
            500)
   \<and> (action_param e = Some ''images''
        \<and> (DRIVE_FOLDER_ID E = None \<or> DRIVE_FOLDER_ID E = Some []) \<longrightarrow>
      content (fst (doGet P E e))
        = ErrorBody True
            ''Internal server error: Error: DRIVE_FOLDER_ID is not set in script properties'' 500)
   \<and> (content (fst (doGet P E e)) = ErrorBody b m c \<longrightarrow> b \<and> c = 500)
   \<and> mime (fst (doGet P E e)) = JSON"
proof -
  have a: "action_param e = Some ''images'' \<and> getDriveImages P E = Inl err \<longrightarrow>
      fst (doGet P E e)
        = \<lparr> mime = JSON,
            content = ErrorBody True (''Internal server error: '' @ Error_toString err) 500 \<rparr>"
    by (simp add: doGet_images)
  have b: "action_param e \<noteq> Some ''images'' \<and> getPortfolioItems P E = Inl err \<longrightarrow>
      fst (doGet P E e)
        = \<lparr> mime = JSON,
            content = ErrorBody True (''Internal server error: '' @ Error_toString err) 500 \<rparr>"
    by (simp add: doGet_items)
  have c: "action_param e \<noteq> Some ''images''
        \<and> SpreadsheetApp_openById E (SPREADSHEET_ID E) = Inr sp
        \<and> getSheetByName sp (SHEET_NAME E) = None \<longrightarrow>
      content (fst (doGet P E e))
        = ErrorBody True
            (''Internal server error: Error: Sheet \"''
               @ (case SHEET_NAME E of None \<Rightarrow> ''null'' | Some n \<Rightarrow> n) @ ''\" not found'')
            500"
  proof
    assume h: "action_param e \<noteq> Some ''images''
        \<and> SpreadsheetApp_openById E (SPREADSHEET_ID E) = Inr sp
        \<and> getSheetByName sp (SHEET_NAME E) = None"
    then have "getPortfolioItems P E
        = Inl (new_Error (''Sheet \"'' @ (case SHEET_NAME E of None \<Rightarrow> ''null'' | Some n \<Rightarrow> n)
                              @ ''\" not found''))"
      by (simp add: getPortfolioItems_def)
    with h show "content (fst (doGet P E e))
        = ErrorBody True
            (''Internal server error: Error: Sheet \"''
               @ (case SHEET_NAME E of None \<Rightarrow> ''null'' | Some n \<Rightarrow> n) @ ''\" not found'')
            500"
      by (simp add: doGet_items new_Error_def Error_toString_def)
  qed
  have d: "action_param e = Some ''images''
        \<and> (DRIVE_FOLDER_ID E = None \<or> DRIVE_FOLDER_ID E = Some []) \<longrightarrow>
      content (fst (doGet P E e))
        = ErrorBody True
            ''Internal server error: Error: DRIVE_FOLDER_ID is not set in script properties'' 500"
  proof
    assume h: "action_param e = Some ''images''
        \<and> (DRIVE_FOLDER_ID E = None \<or> DRIVE_FOLDER_ID E = Some [])"
    then have "getDriveImages P E = Inl (new_Error ''DRIVE_FOLDER_ID is not set in script properties'')"
      by (simp add: getDriveImages_unset)
    with h show "content (fst (doGet P E e))
        = ErrorBody True
            ''Internal server error: Error: DRIVE_FOLDER_ID is not set in script properties'' 500"
      by (simp add: doGet_images new_Error_def Error_toString_def)
  qed
  have f: "content (fst (doGet P E e)) = ErrorBody b m c \<longrightarrow> b \<and> c = 500"
    using doGet_error_code by blast
  from a b c d f doGet_mime [of P E e] show ?thesis by (intro conjI)
qed

theorem doGet_catches_every_error_witness:
  "getSheetByName (example_spreadsheet example_sheet) (Some ''Works'') = None
   \<and> content (fst (doGet example_platform (env_of_sheet example_sheet \<lparr> SHEET_NAME := Some ''Works'' \<rparr>) None))
       = ErrorBody True ''Internal server error: Error: Sheet \"Works\" not found'' 500
   \<and> content (fst (doGet example_platform (env_of_sheet example_sheet \<lparr> DRIVE_FOLDER_ID := None \<rparr>) images_event))
       = ErrorBody True
           ''Internal server error: Error: DRIVE_FOLDER_ID is not set in script properties'' 500"
proof -
  let ?E = "env_of_sheet example_sheet \<lparr> SHEET_NAME := Some ''Works'' \<rparr>"
  let ?F = "env_of_sheet example_sheet \<lparr> DRIVE_FOLDER_ID := None \<rparr>"
  have h: "action_param None \<noteq> Some ''images''
        \<and> SpreadsheetApp_openById ?E (SPREADSHEET_ID ?E) = Inr (example_spreadsheet example_sheet)
        \<and> getSheetByName (example_spreadsheet example_sheet) (SHEET_NAME ?E) = None"
    by (simp add: action_param_def env_of_sheet_def example_spreadsheet_def)
  note specE = doGet_catches_every_error [of None example_platform ?E _ "example_spreadsheet example_sheet"]
  from specE [THEN conjunct2, THEN conjunct2, THEN conjunct1] h
  have "content (fst (doGet example_platform ?E None))
        = ErrorBody True
            (''Internal server error: Error: Sheet \"''
               @ (case SHEET_NAME ?E of None \<Rightarrow> ''null'' | Some n \<Rightarrow> n) @ ''\" not found'')
            500"
    by (rule mp)
  then have a: "content (fst (doGet example_platform ?E None))
       = ErrorBody True ''Internal server error: Error: Sheet \"Works\" not found'' 500"
    by simp
  have g: "action_param images_event = Some ''images''
        \<and> (DRIVE_FOLDER_ID ?F = None \<or> DRIVE_FOLDER_ID ?F = Some [])"
    by (simp add: action_param_def images_event_def)
  note specF = doGet_catches_every_error [of images_event example_platform ?F]
  from specF [THEN conjunct2, THEN conjunct2, THEN conjunct2, THEN conjunct1] g
  have b: "content (fst (doGet example_platform ?F images_event))
       = ErrorBody True
           ''Internal server error: Error: DRIVE_FOLDER_ID is not set in script properties'' 500"
    by (rule mp)
  from h a b show ?thesis by simp
qed

subsection \<open>Dispatch on the action parameter\<close>

text \<open>
  Claim C7. The result of \<open>doGet\<close> is determined by whether the request's \<open>action\<close>
  parameter equals \<open>images\<close>. A request without an event, or without a parameter
  object, gets the items response. A request with the parameter map \<open>ps\<close> gets the
  image response when \<open>ps\<close> maps \<open>action\<close> to \<open>images\<close> and the items response
  otherwise, whatever \<open>ps\<close> holds for other names such as \<open>id\<close>. So two parameter
  maps that agree on \<open>action\<close>, and more generally two requests that agree on whether
  the action is \<open>images\<close>, get the same result from the same external data.
\<close>

theorem doGet_depends_on_action_only:
  "doGet P E None =
     (case getPortfolioItems P E of
        Inr items \<Rightarrow> (\<lparr> mime = JSON, content = ItemsBody items \<rparr>, [])
      | Inl err \<Rightarrow>
          (\<lparr> mime = JSON,
             content = ErrorBody True (''Internal server error: '' @ Error_toString err) 500 \<rparr>,
           [''Error in doGet: '' @ Error_toString err]))
   \<and> doGet P E (Some \<lparr> parameter = None \<rparr>) = doGet P E None
   \<and> doGet P E (Some \<lparr> parameter = Some ps \<rparr>) =
       (if ps ''action'' = Some ''images''
        then (case getDriveImages P E of
                Inr images \<Rightarrow> (\<lparr> mime = JSON, content = ImagesBody images \<rparr>, [])
              | Inl err \<Rightarrow>
                  (\<lparr> mime = JSON,
                     content = ErrorBody True (''Internal server error: '' @ Error_toString err) 500 \<rparr>,
                   [''Error in doGet: '' @ Error_toString err]))
        else doGet P E None)
   \<and> (ps1 ''action'' = ps2 ''action'' \<longrightarrow>
        doGet P E (Some \<lparr> parameter = Some ps1 \<rparr>) = doGet P E (Some \<lparr> parameter = Some ps2 \<rparr>))
   \<and> ((\<exists>ev ps. e1 = Some ev \<and> parameter ev = Some ps \<and> ps ''action'' = Some ''images'')
        = (\<exists>ev ps. e2 = Some ev \<and> parameter ev = Some ps \<and> ps ''action'' = Some ''images'')
        \<longrightarrow> doGet P E e1 = doGet P E e2)"
proof -
  have none: "action_param None \<noteq> Some ''images''"
    by (simp add: action_param_def)
  have a: "doGet P E None =
     (case getPortfolioItems P E of
        Inr items \<Rightarrow> (\<lparr> mime = JSON, content = ItemsBody items \<rparr>, [])
      | Inl err \<Rightarrow>
          (\<lparr> mime = JSON,
             content = ErrorBody True (''Internal server error: '' @ Error_toString err) 500 \<rparr>,
           [''Error in doGet: '' @ Error_toString err]))"
    using none by (rule doGet_items)
  have "action_param (Some \<lparr> parameter = None \<rparr>) \<noteq> Some ''images''"
    by (simp add: action_param_def)
  then have b: "doGet P E (Some \<lparr> parameter = None \<rparr>) = doGet P E None"
    using none by (simp add: doGet_items)
  have ap: "action_param (Some \<lparr> parameter = Some qs \<rparr>) = qs ''action''" for qs
    by (simp add: action_param_def)
  have c: "doGet P E (Some \<lparr> parameter = Some ps \<rparr>) =
       (if ps ''action'' = Some ''images''
        then (case getDriveImages P E of
                Inr images \<Rightarrow> (\<lparr> mime = JSON, content = ImagesBody images \<rparr>, [])
              | Inl err \<Rightarrow>
                  (\<lparr> mime = JSON,
                     content = ErrorBody True (''Internal server error: '' @ Error_toString err) 500 \<rparr>,
                   [''Error in doGet: '' @ Error_toString err]))
        else doGet P E None)"
  proof (cases "ps ''action'' = Some ''images''")
    case True
    then have "action_param (Some \<lparr> parameter = Some ps \<rparr>) = Some ''images''"
      by (simp add: ap)
    from doGet_images [OF this] True show ?thesis by simp
  next
    case False
    then have "action_param (Some \<lparr> parameter = Some ps \<rparr>) \<noteq> Some ''images''"
      by (simp add: ap)
    from doGet_items [OF this] doGet_items [OF none] False show ?thesis by simp
  qed
  have same: "doGet P E x = doGet P E y"
    if "(action_param x = Some ''images'') = (action_param y = Some ''images'')" for x y
    using that
    by (cases "action_param x = Some ''images''") (simp_all add: doGet_items doGet_images)
  have d: "ps1 ''action'' = ps2 ''action'' \<longrightarrow>
        doGet P E (Some \<lparr> parameter = Some ps1 \<rparr>) = doGet P E (Some \<lparr> parameter = Some ps2 \<rparr>)"
    by (auto intro: same simp: ap)
  have f: "(\<exists>ev ps. e1 = Some ev \<and> parameter ev = Some ps \<and> ps ''action'' = Some ''images'')
        = (\<exists>ev ps. e2 = Some ev \<and> parameter ev = Some ps \<and> ps ''action'' = Some ''images'')
        \<longrightarrow> doGet P E e1 = doGet P E e2"
    unfolding action_param_images_iff [symmetric] using same by blast
  from a b c d f show ?thesis by (intro conjI)
qed

theorem doGet_depends_on_action_only_witness:
  "content (fst (doGet example_platform (env_of_sheet example_sheet) images_id_event))
     = ImagesBody [\<lparr> name = ''id-png'', mimeType = ''image/png'', data = ''AQID'' \<rparr>,
                   \<lparr> name = ''id-jpg'', mimeType = ''image/jpeg'', data = [] \<rparr>]
   \<and> doGet example_platform (env_of_sheet example_sheet) images_id_event
       = doGet example_platform (env_of_sheet example_sheet) images_event
   \<and> doGet example_platform (env_of_sheet example_sheet) items_id_event
       = doGet example_platform (env_of_sheet example_sheet) None
   \<and> doGet example_platform (env_of_sheet example_sheet) id_event
       = doGet example_platform (env_of_sheet example_sheet) None
   \<and> map title (un_ItemsBody (content (fst (doGet example_platform (env_of_sheet example_sheet) id_event))))
       = [ascii ''First'', ascii ''Third'']"
proof -
  let ?E = "env_of_sheet example_sheet"
  let ?both = "\<lambda>k. if k = ''action'' then Some ''images''
                     else if k = ''id'' then Some ''project-001'' else None"
  let ?img = "\<lambda>k. if k = ''action'' then Some ''images'' else None"
  let ?items = "\<lambda>k. if k = ''action'' then Some ''items''
                      else if k = ''id'' then Some ''images'' else None"
  let ?id = "\<lambda>k. if k = ''id'' then Some ''project-001'' else None"
  note route = doGet_depends_on_action_only [THEN conjunct2, THEN conjunct2, THEN conjunct1]
  have images: "getDriveImages example_platform ?E
     = Inr [\<lparr> name = ''id-png'', mimeType = ''image/png'', data = ''AQID'' \<rparr>,
            \<lparr> name = ''id-jpg'', mimeType = ''image/jpeg'', data = [] \<rparr>]"
    by code_simp
  have "?both ''action'' = Some ''images''" by simp
  with route [of example_platform ?E ?both] images
  have a: "doGet example_platform ?E images_id_event
     = (\<lparr> mime = JSON,
          content = ImagesBody [\<lparr> name = ''id-png'', mimeType = ''image/png'', data = ''AQID'' \<rparr>,
                                \<lparr> name = ''id-jpg'', mimeType = ''image/jpeg'', data = [] \<rparr>] \<rparr>, [])"
    by (simp add: images_id_event_def)
  have "?img ''action'' = Some ''images''" by simp
  with route [of example_platform ?E ?img] images a
  have b: "doGet example_platform ?E images_id_event = doGet example_platform ?E images_event"
    by (simp add: images_event_def)
  have "?items ''action'' \<noteq> Some ''images''" by simp
  with route [of example_platform ?E ?items]
  have c: "doGet example_platform ?E items_id_event = doGet example_platform ?E None"
    by (simp add: items_id_event_def)
  have "?id ''action'' \<noteq> Some ''images''" by simp
  with route [of example_platform ?E ?id]
  have d: "doGet example_platform ?E id_event = doGet example_platform ?E None"
    by (simp add: id_event_def)
  have "map title (un_ItemsBody (content (fst (doGet example_platform ?E None))))
       = [ascii ''First'', ascii ''Third'']"
    by code_simp
  with a b c d show ?thesis by simp
qed

subsection \<open>The allow-list of image types\<close>

text \<open>
  Claim C8. For every folder listing, the result of \<open>getDriveImages\<close> is the result on
  the files whose MIME type is in the allow-list alone, so that a file outside the list
  gives neither a record nor an error; a result that is returned holds exactly one record
  for each allow-listed file, with that file's MIME type. The allow-list is the five types
  PNG, JPEG, GIF, WEBP and SVG.
\<close>

theorem getDriveImages_allow_list:
  assumes "DRIVE_FOLDER_ID E = Some fid" and "fid \<noteq> []" and "DriveApp_getFolderById E fid = Inr fld"
  shows "getDriveImages P E
           = images_loop P (filter (\<lambda>f. getMimeType f \<in> set imageMimeTypes) (getFiles fld)) []
   \<and> (getDriveImages P E = Inr images \<longrightarrow>
         map mimeType images = filter (\<lambda>m. m \<in> set imageMimeTypes) (map getMimeType (getFiles fld))
         \<and> length images = length (filter (\<lambda>f. getMimeType f \<in> set imageMimeTypes) (getFiles fld)))
   \<and> set imageMimeTypes = {''image/png'', ''image/jpeg'', ''image/gif'', ''image/webp'', ''image/svg+xml''}"
proof -
  note res = getDriveImages_resolved [OF assms, of P]
  have a: "getDriveImages P E
           = images_loop P (filter (\<lambda>f. getMimeType f \<in> set imageMimeTypes) (getFiles fld)) []"
    by (simp only: res images_loop_filter)
  have b: "getDriveImages P E = Inr images \<longrightarrow>
         map mimeType images = filter (\<lambda>m. m \<in> set imageMimeTypes) (map getMimeType (getFiles fld))
         \<and> length images = length (filter (\<lambda>f. getMimeType f \<in> set imageMimeTypes) (getFiles fld))"
  proof
    assume "getDriveImages P E = Inr images"
    with res have "images_loop P (getFiles fld) [] = Inr images" by simp
    from images_loop_Inr [OF this]
    show "map mimeType images = filter (\<lambda>m. m \<in> set imageMimeTypes) (map getMimeType (getFiles fld))
         \<and> length images = length (filter (\<lambda>f. getMimeType f \<in> set imageMimeTypes) (getFiles fld))"
      by (simp add: filter_map comp_def)
  qed
  have c: "set imageMimeTypes = {''image/png'', ''image/jpeg'', ''image/gif'', ''image/webp'', ''image/svg+xml''}"
    by (simp add: imageMimeTypes_def)
  from a b c show ?thesis by (intro conjI)
qed

theorem getDriveImages_allow_list_witness:
  "getDriveImages example_platform (env_of_sheet example_sheet)
     = Inr [\<lparr> name = ''id-png'', mimeType = ''image/png'', data = ''AQID'' \<rparr>,
            \<lparr> name = ''id-jpg'', mimeType = ''image/jpeg'', data = [] \<rparr>]
   \<and> map getMimeType example_files = [''image/png'', ''application/pdf'', ''image/jpeg'']
   \<and> length (filter (\<lambda>f. getMimeType f \<in> set imageMimeTypes) example_files) = 2"
proof -
  let ?E = "env_of_sheet example_sheet"
  let ?images = "[\<lparr> name = ''id-png'', mimeType = ''image/png'', data = ''AQID'' \<rparr>,
            \<lparr> name = ''id-jpg'', mimeType = ''image/jpeg'', data = [] \<rparr>]"
  have h1: "DRIVE_FOLDER_ID ?E = Some ''folder-id''" by (simp add: env_of_sheet_def)
  have h2: "''folder-id'' \<noteq> []" by simp
  have h3: "DriveApp_getFolderById ?E ''folder-id'' = Inr \<lparr> getFiles = example_files \<rparr>"
    by (simp add: env_of_sheet_def)
  note spec = getDriveImages_allow_list [OF h1 h2 h3, of example_platform ?images]
  have r: "getDriveImages example_platform ?E = Inr ?images" by code_simp
  from spec [THEN conjunct2, THEN conjunct1] r
  have "length ?images = length (filter (\<lambda>f. getMimeType f \<in> set imageMimeTypes) example_files)"
    by simp
  moreover have "map getMimeType example_files = [''image/png'', ''application/pdf'', ''image/jpeg'']"
    by code_simp
  ultimately show ?thesis using r by simp
qed

subsection \<open>No failure from cell values\<close>

text \<open>
  Claim C9. In the translation that keeps the exceptions of the runtime, the helpers
  \<open>formatDate\<close>, \<open>parseTags\<close>, \<open>parseBoolean\<close> and the coercion
  \<open>String(value || '')\<close> return on every cell value, and what they return is the value
  computed by the functions of the first translation; for \<open>formatDate\<close> this needs
  that \<open>Utilities.formatDate\<close> returns on a Date with the time zone and format of the
  code. So no row makes \<open>getPortfolioItems\<close> fail: it is equal to the function without
  exceptions, it fails only when the spreadsheet cannot be opened or the sheet is missing,
  and with the sheet found it returns one item for every retained row, whatever the cells
  hold. Whatever \<open>Utilities.formatDate\<close> does, a list that is returned has one item for
  every retained row, so there is no partial result; and the body of an items response is
  either the full collection or an error envelope.
\<close>

theorem helpers_never_raise_on_cells:
  assumes U: "\<And>d. U (JSDate d) ''Asia/Tokyo'' ''yyyy-MM-dd''
                   = Inr (Utilities_formatDate P d ''Asia/Tokyo'' ''yyyy-MM-dd'')"
  shows "formatDate_raw U P v = Inr (formatDate P v)
   \<and> parseTags_raw P v = Inr (parseTags P v)
   \<and> parseBoolean_raw P v = Inr (parseBoolean P v)
   \<and> String_or_empty_raw P v = Inr (String_or_empty P v)
   \<and> make_item_raw U P row k = Inr (make_item P row k)
   \<and> portfolio_items_raw U P values = Inr (portfolio_items P values)
   \<and> getPortfolioItems_raw U P E = getPortfolioItems P E
   \<and> doGet_raw U P E e = doGet P E e
   \<and> (SpreadsheetApp_openById E (SPREADSHEET_ID E) = Inr sp
        \<and> getSheetByName sp (SHEET_NAME E) = Some sh \<longrightarrow>
          getPortfolioItems_raw U P E = Inr (portfolio_items P (data_values sh))
          \<and> length (portfolio_items P (data_values sh))
              = length (filter title_present (data_values sh)))
   \<and> (getPortfolioItems_raw U P E = Inl err \<longleftrightarrow>
        (SpreadsheetApp_openById E (SPREADSHEET_ID E) = Inl err
         \<or> (\<exists>sp. SpreadsheetApp_openById E (SPREADSHEET_ID E) = Inr sp
               \<and> getSheetByName sp (SHEET_NAME E) = None
               \<and> err = new_Error (''Sheet \"'' @ (case SHEET_NAME E of None \<Rightarrow> ''null'' | Some n \<Rightarrow> n)
                                   @ ''\" not found''))))
   \<and> (getPortfolioItems_raw U' P E = Inr items \<longrightarrow>
        (\<exists>sp sh. SpreadsheetApp_openById E (SPREADSHEET_ID E) = Inr sp
           \<and> getSheetByName sp (SHEET_NAME E) = Some sh
           \<and> length items = length (filter title_present (data_values sh))))
   \<and> (\<not> (\<exists>ev ps. e = Some ev \<and> parameter ev = Some ps \<and> ps ''action'' = Some ''images'') \<longrightarrow>
        (\<exists>m. content (fst (doGet_raw U P E e)) = ErrorBody True m 500)
        \<or> (\<exists>sh. content (fst (doGet_raw U P E e)) = ItemsBody (portfolio_items P (data_values sh))))"
proof -
  note raw = getPortfolioItems_raw_eq [of U P, OF U]
  note get = doGet_raw_eq [of U P, OF U]
  have a: "SpreadsheetApp_openById E (SPREADSHEET_ID E) = Inr sp
        \<and> getSheetByName sp (SHEET_NAME E) = Some sh \<longrightarrow>
          getPortfolioItems_raw U P E = Inr (portfolio_items P (data_values sh))
          \<and> length (portfolio_items P (data_values sh))
              = length (filter title_present (data_values sh))"
    using getPortfolioItems_resolved [of E sp sh P]
    by (simp add: raw portfolio_items_length)
  have b: "getPortfolioItems_raw U P E = Inl err \<longleftrightarrow>
        (SpreadsheetApp_openById E (SPREADSHEET_ID E) = Inl err
         \<or> (\<exists>sp. SpreadsheetApp_openById E (SPREADSHEET_ID E) = Inr sp
               \<and> getSheetByName sp (SHEET_NAME E) = None
               \<and> err = new_Error (''Sheet \"'' @ (case SHEET_NAME E of None \<Rightarrow> ''null'' | Some n \<Rightarrow> n)
                                   @ ''\" not found'')))"
    unfolding raw by (rule getPortfolioItems_Inl_iff)
  have c: "getPortfolioItems_raw U' P E = Inr items \<longrightarrow>
        (\<exists>sp sh. SpreadsheetApp_openById E (SPREADSHEET_ID E) = Inr sp
           \<and> getSheetByName sp (SHEET_NAME E) = Some sh
           \<and> length items = length (filter title_present (data_values sh)))"
    using getPortfolioItems_raw_all_or_nothing by blast
  have d: "\<not> (\<exists>ev ps. e = Some ev \<and> parameter ev = Some ps \<and> ps ''action'' = Some ''images'') \<longrightarrow>
        (\<exists>m. content (fst (doGet_raw U P E e)) = ErrorBody True m 500)
        \<or> (\<exists>sh. content (fst (doGet_raw U P E e)) = ItemsBody (portfolio_items P (data_values sh)))"
  proof
    assume "\<not> (\<exists>ev ps. e = Some ev \<and> parameter ev = Some ps \<and> ps ''action'' = Some ''images'')"
    then have h: "action_param e \<noteq> Some ''images''"
      by (simp add: action_param_images_iff)
    show "(\<exists>m. content (fst (doGet_raw U P E e)) = ErrorBody True m 500)
        \<or> (\<exists>sh. content (fst (doGet_raw U P E e)) = ItemsBody (portfolio_items P (data_values sh)))"
    proof (cases "getPortfolioItems P E")
      case (Inl err)
      with h show ?thesis by (simp add: get doGet_items)
    next
      case (Inr items)
      then obtain sh where "items = portfolio_items P (data_values sh)"
        by (auto simp: getPortfolioItems_Inr_iff)
      with h Inr show ?thesis by (auto simp: get doGet_items)
    qed
  qed
  from formatDate_raw_eq [of U P v, OF U] parseTags_raw_eq [of P v] parseBoolean_raw_eq [of P v]
    String_or_empty_raw_eq [of P v] make_item_raw_eq [of U P row k, OF U]
    portfolio_items_raw_eq [of U P "values", OF U] raw get a b c d
  show ?thesis by (intro conjI)
qed

theorem helpers_never_raise_on_cells_witness:
  "getPortfolioItems_raw example_formatDate_call example_platform (env_of_sheet mixed_sheet)
     = Inr [\<lparr> item_id = 0, date = ascii ''2024-01-01'', title = [0x3000, 0x4F5C, 0x54C1, 0x3000],
              description = [], imageUrl = [], tags = [ascii ''1.5''],
              links = [\<lparr> label = Amazon, url = ascii ''true'' \<rparr>,
                       \<lparr> label = DLsite, url = ascii ''1e+21'' \<rparr>],
              isCommision = False \<rparr>]
   \<and> formatDate_raw example_formatDate_call example_platform (JSDate 1704034800000)
       = Inr (ascii ''2024-01-01'')
   \<and> parseTags_raw example_platform (JSNumber 0x3FF8000000000000) = Inr [ascii ''1.5'']
   \<and> parseBoolean_raw example_platform (JSNumber 0x7FF8000000000000) = Inr False
   \<and> example_formatDate_call (JSNumber 0) ''Asia/Tokyo'' ''yyyy-MM-dd''
       = Inl (JSError ''Exception''
                ''The parameters do not match the method signature for Utilities.formatDate.'')"
proof -
  have U: "\<And>d. example_formatDate_call (JSDate d) ''Asia/Tokyo'' ''yyyy-MM-dd''
                = Inr (Utilities_formatDate example_platform d ''Asia/Tokyo'' ''yyyy-MM-dd'')"
    by (simp add: example_formatDate_call_def)
  note spec = helpers_never_raise_on_cells [of example_formatDate_call example_platform, OF U]
  have "getPortfolioItems example_platform (env_of_sheet mixed_sheet)
     = Inr [\<lparr> item_id = 0, date = ascii ''2024-01-01'', title = [0x3000, 0x4F5C, 0x54C1, 0x3000],
              description = [], imageUrl = [], tags = [ascii ''1.5''],
              links = [\<lparr> label = Amazon, url = ascii ''true'' \<rparr>,
                       \<lparr> label = DLsite, url = ascii ''1e+21'' \<rparr>],
              isCommision = False \<rparr>]"
    by code_simp
  with spec [of _ _ _ _ "env_of_sheet mixed_sheet", THEN conjunct2, THEN conjunct2, THEN conjunct2,
      THEN conjunct2, THEN conjunct2, THEN conjunct2, THEN conjunct1]
  have a: "getPortfolioItems_raw example_formatDate_call example_platform (env_of_sheet mixed_sheet)
     = Inr [\<lparr> item_id = 0, date = ascii ''2024-01-01'', title = [0x3000, 0x4F5C, 0x54C1, 0x3000],
              description = [], imageUrl = [], tags = [ascii ''1.5''],
              links = [\<lparr> label = Amazon, url = ascii ''true'' \<rparr>,
                       \<lparr> label = DLsite, url = ascii ''1e+21'' \<rparr>],
              isCommision = False \<rparr>]"
    by simp
  have "formatDate example_platform (JSDate 1704034800000) = ascii ''2024-01-01''"
    by code_simp
  with spec [of "JSDate 1704034800000", THEN conjunct1]
  have b: "formatDate_raw example_formatDate_call example_platform (JSDate 1704034800000)
       = Inr (ascii ''2024-01-01'')"
    by simp
  have "parseTags example_platform (JSNumber 0x3FF8000000000000) = [ascii ''1.5'']"
    by code_simp
  with spec [of "JSNumber 0x3FF8000000000000", THEN conjunct2, THEN conjunct1]
  have c: "parseTags_raw example_platform (JSNumber 0x3FF8000000000000) = Inr [ascii ''1.5'']"
    by simp
  have "parseBoolean example_platform (JSNumber 0x7FF8000000000000) = False"
    by code_simp
  with spec [of "JSNumber 0x7FF8000000000000", THEN conjunct2, THEN conjunct2, THEN conjunct1]
  have d: "parseBoolean_raw example_platform (JSNumber 0x7FF8000000000000) = Inr False"
    by simp
  have f: "example_formatDate_call (JSNumber 0) ''Asia/Tokyo'' ''yyyy-MM-dd''
       = Inl (JSError ''Exception''
                ''The parameters do not match the method signature for Utilities.formatDate.'')"
    by (simp add: example_formatDate_call_def)
  from a b c d f show ?thesis by (intro conjI)
qed

subsection \<open>The order of the image records\<close>

text \<open>
  Claim C10. The records of \<open>getDriveImages\<close> follow the order of the folder listing:
  they are the allow-listed files in listing order, each record with the file's identifier
  as name, the file's MIME type, and the base64 encoding of the file's bytes as data. The
  function returns them whenever the bytes of every allow-listed file can be read.
\<close>

theorem getDriveImages_listing_order:
  assumes "DRIVE_FOLDER_ID E = Some fid" and "fid \<noteq> []" and "DriveApp_getFolderById E fid = Inr fld"
  shows "(getDriveImages P E = Inr images \<longrightarrow>
           map name images
             = map getId (filter (\<lambda>f. getMimeType f \<in> set imageMimeTypes) (getFiles fld))
           \<and> map mimeType images
             = map getMimeType (filter (\<lambda>f. getMimeType f \<in> set imageMimeTypes) (getFiles fld))
           \<and> map (\<lambda>i. Inr (data i)) images
             = map (\<lambda>f. map_sum id (Utilities_base64Encode P) (getBlob_getBytes f))
                   (filter (\<lambda>f. getMimeType f \<in> set imageMimeTypes) (getFiles fld)))
   \<and> ((\<forall>f \<in> set (getFiles fld).
          getMimeType f \<in> set imageMimeTypes \<longrightarrow> \<not> isl (getBlob_getBytes f)) \<longrightarrow>
        (\<exists>result. getDriveImages P E = Inr result))"
proof -
  note res = getDriveImages_resolved [OF assms, of P]
  let ?allowed = "filter (\<lambda>f. getMimeType f \<in> set imageMimeTypes) (getFiles fld)"
  have a: "getDriveImages P E = Inr images \<longrightarrow>
           map name images = map getId ?allowed
           \<and> map mimeType images = map getMimeType ?allowed
           \<and> map (\<lambda>i. Inr (data i)) images
             = map (\<lambda>f. map_sum id (Utilities_base64Encode P) (getBlob_getBytes f)) ?allowed"
  proof
    assume "getDriveImages P E = Inr images"
    with res have "images_loop P (getFiles fld) [] = Inr images" by simp
    from images_loop_Inr [OF this]
    have images: "images = map (\<lambda>f. \<lparr> name = getId f, mimeType = getMimeType f,
                                    data = Utilities_base64Encode P (projr (getBlob_getBytes f)) \<rparr>) ?allowed"
      and readable: "\<forall>f \<in> set ?allowed. \<not> isl (getBlob_getBytes f)"
      by simp_all
    have "map (\<lambda>f. (Inr (Utilities_base64Encode P (projr (getBlob_getBytes f))) :: jserror + string)) ?allowed
          = map (\<lambda>f. map_sum id (Utilities_base64Encode P) (getBlob_getBytes f)) ?allowed"
    proof (rule map_cong [OF refl])
      fix f assume "f \<in> set ?allowed"
      with readable have "\<not> isl (getBlob_getBytes f)" by blast
      then show "(Inr (Utilities_base64Encode P (projr (getBlob_getBytes f))) :: jserror + string)
                 = map_sum id (Utilities_base64Encode P) (getBlob_getBytes f)"
        by (cases "getBlob_getBytes f") simp_all
    qed
    with images
    show "map name images = map getId ?allowed
           \<and> map mimeType images = map getMimeType ?allowed
           \<and> map (\<lambda>i. Inr (data i)) images
             = map (\<lambda>f. map_sum id (Utilities_base64Encode P) (getBlob_getBytes f)) ?allowed"
      by (simp add: comp_def)
  qed
  have b: "(\<forall>f \<in> set (getFiles fld).
          getMimeType f \<in> set imageMimeTypes \<longrightarrow> \<not> isl (getBlob_getBytes f)) \<longrightarrow>
        (\<exists>result. getDriveImages P E = Inr result)"
    using images_loop_readable [of "getFiles fld" P "[]"] res by simp
  from a b show ?thesis by (intro conjI)
qed

theorem getDriveImages_listing_order_witness:
  "getDriveImages example_platform (env_of_sheet example_sheet)
     = Inr [\<lparr> name = ''id-png'', mimeType = ''image/png'', data = ''AQID'' \<rparr>,
            \<lparr> name = ''id-jpg'', mimeType = ''image/jpeg'', data = [] \<rparr>]
   \<and> map getId (filter (\<lambda>f. getMimeType f \<in> set imageMimeTypes) example_files)
       = [''id-png'', ''id-jpg'']"
proof -
  let ?E = "env_of_sheet example_sheet"
  let ?images = "[\<lparr> name = ''id-png'', mimeType = ''image/png'', data = ''AQID'' \<rparr>,
            \<lparr> name = ''id-jpg'', mimeType = ''image/jpeg'', data = [] \<rparr>]"
  have h1: "DRIVE_FOLDER_ID ?E = Some ''folder-id''" by (simp add: env_of_sheet_def)
  have h2: "''folder-id'' \<noteq> []" by simp
  have h3: "DriveApp_getFolderById ?E ''folder-id'' = Inr \<lparr> getFiles = example_files \<rparr>"
    by (simp add: env_of_sheet_def)
  note spec = getDriveImages_listing_order [OF h1 h2 h3, of example_platform ?images]
  have r: "getDriveImages example_platform ?E = Inr ?images" by code_simp
  from spec [THEN conjunct1] r
  have "map name ?images
          = map getId (filter (\<lambda>f. getMimeType f \<in> set imageMimeTypes) (getFiles \<lparr> getFiles = example_files \<rparr>))"
    by blast
  then have "map getId (filter (\<lambda>f. getMimeType f \<in> set imageMimeTypes) example_files)
       = [''id-png'', ''id-jpg'']"
    by simp
  with r show ?thesis by simp
qed

end
